theory Spec2Isabelle
  imports Main "HOL-Library.AList" "HOL-Library.Sublist"
begin

section \<open>Strings and dates as the service uses them\<close>

text \<open>
  Strings are byte strings (UTF-8), so \<open>trim\<close> and \<open>toLowerCase\<close> act on the ASCII
  range: the white space removed by \<open>trim\<close> is tab, line feed, vertical tab, form feed,
  carriage return and space. A \<open>Date\<close> is its millisecond value, an \<open>int\<close>; a present
  \<open>Date\<close> is always truthy, whatever its value.
\<close>

type_synonym date = int

definition js_whitespace :: "char \<Rightarrow> bool" where
  "js_whitespace c = (c \<in> set [CHR 0x09, CHR 0x0A, CHR 0x0B, CHR 0x0C, CHR 0x0D, CHR 0x20])"

definition trim :: "string \<Rightarrow> string" where
  "trim s = rev (dropWhile js_whitespace (rev (dropWhile js_whitespace s)))"

definition lower_char :: "char \<Rightarrow> char" where
  "lower_char c =
     (case map_of (zip ''ABCDEFGHIJKLMNOPQRSTUVWXYZ'' ''abcdefghijklmnopqrstuvwxyz'') c of
        Some l \<Rightarrow> l
      | None \<Rightarrow> c)"

definition toLowerCase :: "string \<Rightarrow> string" where
  "toLowerCase s = map lower_char s"

text \<open>\<open>value || ''\<close> and the truth value of an optional string: \<open>undefined\<close>, \<open>null\<close> and
  the empty string are falsy.\<close>

definition or_empty :: "string option \<Rightarrow> string" where
  "or_empty v = (case v of None \<Rightarrow> [] | Some s \<Rightarrow> s)"

definition truthy :: "string option \<Rightarrow> bool" where
  "truthy v = (or_empty v \<noteq> [])"

text \<open>\<open>a && a > b\<close> on two optional dates, the second one known to be present.\<close>

definition later_than :: "date option \<Rightarrow> date \<Rightarrow> bool" where
  "later_than a g = (case a of None \<Rightarrow> False | Some t \<Rightarrow> t > g)"

section \<open>Message templates (tasks.messages.ts)\<close>

definition operatorHandoffMessage :: "string \<Rightarrow> string \<Rightarrow> string" where
  "operatorHandoffMessage customerName operatorName =
     ''Ol'' @ [CHR 0xC3, CHR 0xA1] @ '', '' @ customerName @ ''. Meu nome '' @
     [CHR 0xC3, CHR 0xA9] @ '' '' @ operatorName @
     '' e irei dar continuidade ao seu atendimento.'' @
     [CHR 0xF0, CHR 0x9F, CHR 0x98, CHR 0x89, CHR 0xE2, CHR 0x9D, CHR 0xA4]"

definition stillInChatMessage :: "string \<Rightarrow> string" where
  "stillInChatMessage customerName =
     ''Ol'' @ [CHR 0xC3, CHR 0xA1] @ '', '' @ customerName @ ''. Voc'' @
     [CHR 0xC3, CHR 0xAA] @ '' ainda est'' @ [CHR 0xC3, CHR 0xA1] @ '' no chat?''"

definition inactivityCloseMessage :: "string \<Rightarrow> string" where
  "inactivityCloseMessage customerName =
     ''Ol'' @ [CHR 0xC3, CHR 0xA1] @ '', '' @ customerName @
     ''. Identificamos que voc'' @ [CHR 0xC3, CHR 0xAA] @ '' est'' @ [CHR 0xC3, CHR 0xA1] @
     '' inativo e seu chat ser'' @ [CHR 0xC3, CHR 0xA1] @ '' encerrado por inatividade.''"

section \<open>The internal task table (shared/types, tasks.repository.ts)\<close>

datatype TaskStatus = StOpen | StAssigned | StClosed

text \<open>
  The \<open>Task\<close> interface. The table \<open>tasks\<close> is an association list from the row key to
  the task read from that row: every row is written by \<open>create\<close> (which sets the key, the
  customer columns, the status and both audit stamps) and every \<open>UPDATE\<close> is guarded by
  \<open>findById\<close>, so the defaults of \<open>mapRowToTask\<close> for null columns are never taken.
  The field \<open>task_id\<close> is the interface's \<open>id\<close>.
\<close>

record Task =
  task_id :: string
  customer_name :: string
  customer_contact :: string
  operator_id :: "string option"
  operator_name :: "string option"
  status :: TaskStatus
  created_at :: date
  updated_at :: date
  assigned_at :: "date option"
  greeting_sent_at :: "date option"
  ping_sent_at :: "date option"
  inactive_sent_at :: "date option"
  last_customer_activity_at :: "date option"
  closed_at :: "date option"
  close_reason :: "string option"

type_synonym tasks_table = "(string \<times> Task) list"

definition normalizeLimit :: "int \<Rightarrow> nat" where
  "normalizeLimit limit = (if limit \<le> 0 then 100 else nat (min limit 1000))"

definition findById :: "tasks_table \<Rightarrow> string \<Rightarrow> Task option" where
  "findById tbl i = map_of tbl i"

definition findByStatus :: "tasks_table \<Rightarrow> TaskStatus \<Rightarrow> int \<Rightarrow> Task list" where
  "findByStatus tbl st limit =
     take (normalizeLimit limit) (filter (\<lambda>t. status t = st) (map snd tbl))"

definition findAssignedByCustomerContact :: "tasks_table \<Rightarrow> string \<Rightarrow> Task list" where
  "findAssignedByCustomerContact tbl contact =
     take (normalizeLimit 25)
       (filter (\<lambda>t. customer_contact t = contact \<and> status t = StAssigned) (map snd tbl))"

text \<open>\<open>create\<close>: the fresh key \<open>Uuid.random()\<close> is a parameter.\<close>

definition create :: "tasks_table \<Rightarrow> string \<Rightarrow> string \<Rightarrow> string \<Rightarrow> date \<Rightarrow> Task \<times> tasks_table" where
  "create tbl new_id customerName customerContact now =
     (let t = \<lparr> task_id = new_id, customer_name = customerName,
                customer_contact = customerContact, operator_id = None, operator_name = None,
                status = StOpen, created_at = now, updated_at = now, assigned_at = None,
                greeting_sent_at = None, ping_sent_at = None, inactive_sent_at = None,
                last_customer_activity_at = None, closed_at = None, close_reason = None \<rparr>
      in (t, AList.update new_id t tbl))"

text \<open>
  Each repository method below reads \<open>existing\<close>, returns \<open>null\<close> (\<open>None\<close>) without
  writing when the row is absent, and otherwise runs its \<open>UPDATE\<close> and returns the row
  read back. \<open>now\<close> is the method's own \<open>new Date()\<close>.
\<close>

definition assignToOperator ::
  "tasks_table \<Rightarrow> string \<Rightarrow> string \<Rightarrow> string \<Rightarrow> date \<Rightarrow> Task option \<times> tasks_table" where
  "assignToOperator tbl i operatorId operatorName now =
     (case findById tbl i of
        None \<Rightarrow> (None, tbl)
      | Some existing \<Rightarrow>
          (let tbl' = AList.update i
                 (existing\<lparr> operator_id := Some operatorId, operator_name := Some operatorName,
                            status := StAssigned,
                            assigned_at := Some (case assigned_at existing of
                                                   None \<Rightarrow> now | Some a \<Rightarrow> a),
                            updated_at := now \<rparr>) tbl
           in (findById tbl' i, tbl')))"

definition setGreetingSent ::
  "tasks_table \<Rightarrow> string \<Rightarrow> date \<Rightarrow> date \<Rightarrow> Task option \<times> tasks_table" where
  "setGreetingSent tbl i greetingSentAt now =
     (case findById tbl i of
        None \<Rightarrow> (None, tbl)
      | Some existing \<Rightarrow>
          (let tbl' = AList.update i
                 (existing\<lparr> greeting_sent_at := Some greetingSentAt, ping_sent_at := None,
                            inactive_sent_at := None, updated_at := now \<rparr>) tbl
           in (findById tbl' i, tbl')))"

definition markCustomerActivity_repo ::
  "tasks_table \<Rightarrow> string \<Rightarrow> date \<Rightarrow> date \<Rightarrow> Task option \<times> tasks_table" where
  "markCustomerActivity_repo tbl i at now =
     (case findById tbl i of
        None \<Rightarrow> (None, tbl)
      | Some existing \<Rightarrow>
          (let tbl' = AList.update i
                 (existing\<lparr> last_customer_activity_at := Some at, updated_at := now \<rparr>) tbl
           in (findById tbl' i, tbl')))"

definition markPingSent ::
  "tasks_table \<Rightarrow> string \<Rightarrow> date \<Rightarrow> date \<Rightarrow> Task option \<times> tasks_table" where
  "markPingSent tbl i at now =
     (case findById tbl i of
        None \<Rightarrow> (None, tbl)
      | Some existing \<Rightarrow>
          (let tbl' = AList.update i (existing\<lparr> ping_sent_at := Some at, updated_at := now \<rparr>) tbl
           in (findById tbl' i, tbl')))"

definition closeDueToInactivity ::
  "tasks_table \<Rightarrow> string \<Rightarrow> date \<Rightarrow> date \<Rightarrow> Task option \<times> tasks_table" where
  "closeDueToInactivity tbl i at now =
     (case findById tbl i of
        None \<Rightarrow> (None, tbl)
      | Some existing \<Rightarrow>
          (let tbl' = AList.update i
                 (existing\<lparr> inactive_sent_at := Some at, status := StClosed,
                            closed_at := Some at, close_reason := Some ''inactivity'',
                            updated_at := now \<rparr>) tbl
           in (findById tbl' i, tbl')))"

section \<open>The inactivity scheduler (TaskInactivityScheduler)\<close>

text \<open>
  The scheduler's \<open>timers\<close> map holds two timeout handles per task id. The runtime's side
  of \<open>setTimeout\<close>/\<open>clearTimeout\<close> is explicit: \<open>armed\<close> maps each handle that is still
  due to fire to its delay and its callback, and \<open>next_handle\<close> is the handle the next
  \<open>setTimeout\<close> returns. A callback is named by the method it will run and the task id
  it was closed over.
\<close>

datatype callback =
    InternalPing string | InternalInactive string
  | FlexPing string | FlexInactive string

record scheduler =
  timers :: "string \<rightharpoonup> nat \<times> nat"
  armed :: "nat \<rightharpoonup> int \<times> callback"
  next_handle :: nat

definition setTimeout :: "scheduler \<Rightarrow> callback \<Rightarrow> int \<Rightarrow> nat \<times> scheduler" where
  "setTimeout s cb delay =
     (next_handle s,
      s\<lparr> armed := (armed s)(next_handle s \<mapsto> (delay, cb)),
         next_handle := Suc (next_handle s) \<rparr>)"

definition clearTimeout :: "scheduler \<Rightarrow> nat \<Rightarrow> scheduler" where
  "clearTimeout s h = s\<lparr> armed := (armed s)(h := None) \<rparr>"

definition has :: "scheduler \<Rightarrow> string \<Rightarrow> bool" where
  "has s taskId = (timers s taskId \<noteq> None)"

definition cancel :: "scheduler \<Rightarrow> string \<Rightarrow> scheduler" where
  "cancel s taskId =
     (case timers s taskId of
        None \<Rightarrow> s
      | Some (pingTimeout, inactiveTimeout) \<Rightarrow>
          (let s1 = clearTimeout s pingTimeout;
               s2 = clearTimeout s1 inactiveTimeout
           in s2\<lparr> timers := (timers s2)(taskId := None) \<rparr>))"

text \<open>\<open>schedule\<close>: \<open>now\<close> is \<open>Date.now()\<close>, \<open>onPing\<close> and \<open>onInactive\<close> the two callbacks.\<close>

definition schedule ::
  "scheduler \<Rightarrow> string \<Rightarrow> date \<Rightarrow> callback \<Rightarrow> callback \<Rightarrow> int \<Rightarrow> scheduler" where
  "schedule s taskId greetingSentAt onPing onInactive now =
     (let s0 = cancel s taskId;
          base = greetingSentAt;
          msUntilPing = max 0 (base + 5000 - now);
          msUntilInactive = max 0 (base + 30000 - now);
          (pingTimeout, s1) = setTimeout s0 onPing msUntilPing;
          (inactiveTimeout, s2) = setTimeout s1 onInactive msUntilInactive
      in s2\<lparr> timers := (timers s2)(taskId \<mapsto> (pingTimeout, inactiveTimeout)) \<rparr>)"


section \<open>The flex task table (flex.tasks.repository.ts)\<close>

text \<open>
  \<open>FlexTaskState\<close>, one per row of \<open>flex_tasks\<close>. The repository's \<open>UPDATE\<close>s are not
  guarded by a read and the store creates the row of an \<open>UPDATE\<close> that finds none, so
  \<open>flex_created_at\<close> is optional here: it is null in a row that only an \<open>UPDATE\<close> has
  written, and \<open>mapRow\<close>'s default \<open>created_at ?? new Date()\<close> is taken where the
  column is read. Every write sets \<open>updated_at\<close>.
\<close>

record FlexTaskState =
  task_sid :: string
  conversation_sid :: "string option"
  channel_type :: "string option"
  flex_customer_name :: "string option"
  customer_address :: "string option"
  customer_from :: "string option"
  worker_sid :: "string option"
  worker_name :: "string option"
  task_assignment_status :: "string option"
  task_attributes :: "string option"
  flex_greeting_sent_at :: "date option"
  flex_ping_sent_at :: "date option"
  flex_inactive_sent_at :: "date option"
  flex_last_customer_activity_at :: "date option"
  flex_created_at :: "date option"
  flex_updated_at :: date

type_synonym flex_table = "(string \<times> FlexTaskState) list"

record upsert_input =
  in_taskSid :: string
  in_conversationSid :: "string option"
  in_channelType :: "string option"
  in_customerName :: "string option"
  in_customerAddress :: "string option"
  in_customerFrom :: "string option"
  in_workerSid :: "string option"
  in_workerName :: "string option"
  in_assignmentStatus :: "string option"
  in_taskAttributes :: "string option"

definition findByTaskSid :: "flex_table \<Rightarrow> string \<Rightarrow> FlexTaskState option" where
  "findByTaskSid tbl taskSid = map_of tbl taskSid"

definition findByConversationSid ::
  "flex_table \<Rightarrow> (string \<times> string) list \<Rightarrow> string \<Rightarrow> FlexTaskState option" where
  "findByConversationSid tbl lookup conversationSid =
     (case map_of lookup conversationSid of
        None \<Rightarrow> None
      | Some taskSid \<Rightarrow> (if taskSid = [] then None else findByTaskSid tbl taskSid))"

text \<open>The row an \<open>INSERT\<close> or \<open>UPDATE\<close> starts from: the stored one, or all columns null.\<close>

definition row_or_new :: "flex_table \<Rightarrow> string \<Rightarrow> date \<Rightarrow> FlexTaskState" where
  "row_or_new tbl taskSid now =
     (case map_of tbl taskSid of
        Some r \<Rightarrow> r
      | None \<Rightarrow> \<lparr> task_sid = taskSid, conversation_sid = None, channel_type = None,
                  flex_customer_name = None, customer_address = None, customer_from = None,
                  worker_sid = None, worker_name = None, task_assignment_status = None,
                  task_attributes = None, flex_greeting_sent_at = None,
                  flex_ping_sent_at = None, flex_inactive_sent_at = None,
                  flex_last_customer_activity_at = None, flex_created_at = None,
                  flex_updated_at = now \<rparr>)"

definition upsertBaseState ::
  "flex_table \<Rightarrow> (string \<times> string) list \<Rightarrow> upsert_input \<Rightarrow> date \<Rightarrow>
   flex_table \<times> (string \<times> string) list" where
  "upsertBaseState tbl lookup inp now =
     (let existing = findByTaskSid tbl (in_taskSid inp);
          createdAt = (case existing of
                         None \<Rightarrow> now
                       | Some e \<Rightarrow> (case flex_created_at e of None \<Rightarrow> now | Some c \<Rightarrow> c));
          tbl' = AList.update (in_taskSid inp)
                   ((row_or_new tbl (in_taskSid inp) now)
                      \<lparr> conversation_sid := in_conversationSid inp,
                         channel_type := in_channelType inp,
                         flex_customer_name := in_customerName inp,
                         customer_address := in_customerAddress inp,
                         customer_from := in_customerFrom inp,
                         worker_sid := in_workerSid inp,
                         worker_name := in_workerName inp,
                         task_assignment_status := in_assignmentStatus inp,
                         task_attributes := in_taskAttributes inp,
                         flex_created_at := Some createdAt,
                         flex_updated_at := now \<rparr>) tbl
      in (tbl',
          if truthy (in_conversationSid inp)
          then AList.update (or_empty (in_conversationSid inp)) (in_taskSid inp) lookup
          else lookup))"

definition flex_setGreetingSent :: "flex_table \<Rightarrow> string \<Rightarrow> date \<Rightarrow> date \<Rightarrow> flex_table" where
  "flex_setGreetingSent tbl taskSid at now =
     AList.update taskSid
       ((row_or_new tbl taskSid now)
          \<lparr> flex_greeting_sent_at := Some at, flex_ping_sent_at := None,
             flex_inactive_sent_at := None, flex_updated_at := now \<rparr>) tbl"

definition flex_markPingSent :: "flex_table \<Rightarrow> string \<Rightarrow> date \<Rightarrow> date \<Rightarrow> flex_table" where
  "flex_markPingSent tbl taskSid at now =
     AList.update taskSid
       ((row_or_new tbl taskSid now)\<lparr> flex_ping_sent_at := Some at, flex_updated_at := now \<rparr>) tbl"

definition flex_markInactiveSent :: "flex_table \<Rightarrow> string \<Rightarrow> date \<Rightarrow> date \<Rightarrow> flex_table" where
  "flex_markInactiveSent tbl taskSid at now =
     AList.update taskSid
       ((row_or_new tbl taskSid now)
          \<lparr> flex_inactive_sent_at := Some at, flex_updated_at := now \<rparr>) tbl"

definition flex_markCustomerActivity :: "flex_table \<Rightarrow> string \<Rightarrow> date \<Rightarrow> date \<Rightarrow> flex_table" where
  "flex_markCustomerActivity tbl taskSid at now =
     AList.update taskSid
       ((row_or_new tbl taskSid now)
          \<lparr> flex_last_customer_activity_at := Some at, flex_updated_at := now \<rparr>) tbl"

section \<open>The provider, the process environment and the service's state\<close>

text \<open>
  What a call of the service reads from outside: the process environment and the
  provider's answers. A provider call that throws answers \<open>Inl ProviderError\<close>; the two
  message sends, the closing of a conversation and the completion of a task answer
  whether the request succeeded. \<open>Number(process.env.X)\<close> is given
  as an optional integer, \<open>None\<close> where it is \<open>NaN\<close>. \<open>JSON.parse\<close> is the field
  \<open>json_parse\<close>, \<open>None\<close> where it throws.
\<close>

datatype error =
    TaskNotFound | HandoffSendFailed | TaskNotAssigned | ProviderError | TypeError

datatype json =
    JNull | JBool bool | JNumber int | JString string
  | JArray "json list" | JObject "(string \<times> json) list"

record workspace =
  ws_sid :: string
  ws_friendlyName :: "string option"

record provider_task =
  pt_sid :: string
  pt_attributes :: string
  pt_assignmentStatus :: string

record reservation =
  res_workerName :: "string option"
  res_workerSid :: "string option"

record participant =
  p_identity :: "string option"
  p_attributes :: "string option"
  p_bindingAddress :: "string option"

record worker =
  wk_attributes :: "string option"
  wk_friendlyName :: "string option"

record env =
  TASKS_AUTO_SOURCE :: "string option"
  TASKS_AUTO_BATCH_SIZE :: "int option"
  TASKS_FLEX_POLL_LIMIT :: "int option"
  TASKS_AUTOMATION_AUTHOR :: "string option"
  TASKS_FLEX_CLOSE_CONVERSATION :: "string option"
  TASKS_FLEX_COMPLETE_TASK :: "string option"
  TWILIO_ACCOUNT_SID :: "string option"
  TWILIO_AUTH_TOKEN :: "string option"
  TWILIO_PHONE_NUMBER :: "string option"
  TWILIO_TASKROUTER_WORKSPACE_SID :: "string option"
  json_parse :: "string \<Rightarrow> json option"
  sms_create :: "string \<Rightarrow> string \<Rightarrow> bool"
  message_create :: "string \<Rightarrow> string \<Rightarrow> string \<Rightarrow> bool"
  workspaces_list :: "error + workspace list"
  tasks_list :: "string \<Rightarrow> int \<Rightarrow> error + provider_task list"
  reservations_list :: "string \<Rightarrow> string \<Rightarrow> error + reservation list"
  participants_list :: "string \<Rightarrow> error + participant list"
  worker_fetch :: "string \<Rightarrow> string \<Rightarrow> error + worker"
  conversation_close :: "string \<Rightarrow> bool"
  task_complete :: "string \<Rightarrow> string \<Rightarrow> bool"

text \<open>
  The state a call works on: the three tables, the scheduler, the fields of
  \<open>TasksService\<close>, and the requests made to the provider so far (\<open>sms_log\<close>: recipient
  and body of every SMS \<open>create\<close>; \<open>message_log\<close>: conversation, author and body of
  every conversation message \<open>create\<close>; \<open>close_log\<close>: the conversations asked to
  close; \<open>complete_log\<close>: workspace and task of every completion request).
\<close>

record world =
  tasks :: tasks_table
  flex_tasks :: flex_table
  flex_tasks_by_conversation :: "(string \<times> string) list"
  sched :: scheduler
  twilioClient :: bool
  workspaceSid :: "string option"
  twilioConfigWarned :: bool
  workspaceResolveWarned :: bool
  workerNameCache :: "string \<rightharpoonup> string"
  warnedWorkerParticipantMissing :: "string set"
  sms_log :: "(string \<times> string) list"
  message_log :: "(string \<times> string \<times> string) list"
  close_log :: "string list"
  complete_log :: "(string \<times> string) list"

section \<open>SMS (config/twilio)\<close>

definition validateConfig :: "env \<Rightarrow> bool" where
  "validateConfig e =
     (truthy (TWILIO_ACCOUNT_SID e) \<and> truthy (TWILIO_AUTH_TOKEN e) \<and>
      truthy (TWILIO_PHONE_NUMBER e))"

definition sendSMS :: "env \<Rightarrow> world \<Rightarrow> string \<Rightarrow> string \<Rightarrow> bool \<times> world" where
  "sendSMS e w to body =
     (if \<not> validateConfig e then (False, w)
      else (sms_create e to body, w\<lparr> sms_log := sms_log w @ [(to, body)] \<rparr>))"

section \<open>The service on internal tasks (tasks.service.ts)\<close>

text \<open>In every method \<open>now\<close> is the clock reading of the call: the \<open>new Date()\<close> of the
  method, of the repository method it calls and the \<open>Date.now()\<close> of the scheduler.\<close>

definition scheduleInternalInactivityTimers :: "world \<Rightarrow> Task \<Rightarrow> date \<Rightarrow> world" where
  "scheduleInternalInactivityTimers w task now =
     (case greeting_sent_at task of
        None \<Rightarrow> w
      | Some greetingSentAt \<Rightarrow>
          (if has (sched w) (task_id task) then w
           else w\<lparr> sched := schedule (sched w) (task_id task) greetingSentAt
                              (InternalPing (task_id task)) (InternalInactive (task_id task))
                              now \<rparr>))"

definition assign ::
  "world \<Rightarrow> string \<Rightarrow> string \<Rightarrow> string \<Rightarrow> date \<Rightarrow> (error + Task) \<times> world" where
  "assign w taskId operatorId operatorName now =
     (case assignToOperator (tasks w) taskId operatorId operatorName now of
        (None, tbl) \<Rightarrow> (Inl TaskNotFound, w\<lparr> tasks := tbl \<rparr>)
      | (Some updated, tbl) \<Rightarrow> (Inr updated, w\<lparr> tasks := tbl \<rparr>))"

definition startOperatorHandoff ::
  "env \<Rightarrow> world \<Rightarrow> string \<Rightarrow> string \<Rightarrow> string \<Rightarrow> bool option \<Rightarrow> date \<Rightarrow>
   (error + Task) \<times> world" where
  "startOperatorHandoff e w taskId operatorId operatorName sendGreeting now =
     (case assign w taskId operatorId operatorName now of
        (Inl err, w1) \<Rightarrow> (Inl err, w1)
      | (Inr assigned, w1) \<Rightarrow>
          (let shouldSendGreeting = (case sendGreeting of None \<Rightarrow> True | Some b \<Rightarrow> b);
               (ok, w2) = (if shouldSendGreeting
                           then sendSMS e w1 (customer_contact assigned)
                                  (operatorHandoffMessage (customer_name assigned) operatorName)
                           else (True, w1))
           in if \<not> ok then (Inl HandoffSendFailed, w2)
              else (case setGreetingSent (tasks w2) taskId now now of
                      (None, tbl) \<Rightarrow> (Inl TaskNotFound, w2\<lparr> tasks := tbl \<rparr>)
                    | (Some updated, tbl) \<Rightarrow>
                        (Inr updated,
                         scheduleInternalInactivityTimers (w2\<lparr> tasks := tbl \<rparr>) updated now))))"

definition registerOperatorGreeting ::
  "world \<Rightarrow> string \<Rightarrow> date \<Rightarrow> (error + Task) \<times> world" where
  "registerOperatorGreeting w taskId now =
     (case findById (tasks w) taskId of
        None \<Rightarrow> (Inl TaskNotFound, w)
      | Some task \<Rightarrow>
          (if status task \<noteq> StAssigned then (Inl TaskNotAssigned, w)
           else (case setGreetingSent (tasks w) taskId now now of
                   (None, tbl) \<Rightarrow> (Inl TaskNotFound, w\<lparr> tasks := tbl \<rparr>)
                 | (Some updated, tbl) \<Rightarrow>
                     (Inr updated,
                      scheduleInternalInactivityTimers (w\<lparr> tasks := tbl \<rparr>) updated now))))"

definition markCustomerActivity ::
  "world \<Rightarrow> string \<Rightarrow> date \<Rightarrow> (error + Task) \<times> world" where
  "markCustomerActivity w taskId now =
     (case markCustomerActivity_repo (tasks w) taskId now now of
        (None, tbl) \<Rightarrow> (Inl TaskNotFound, w\<lparr> tasks := tbl \<rparr>)
      | (Some updated, tbl) \<Rightarrow>
          (Inr updated, w\<lparr> tasks := tbl, sched := cancel (sched w) taskId \<rparr>))"

text \<open>The first element of the candidates sorted by \<open>updated_at\<close>, latest first; the sort
  is stable, so among equally late candidates the first listed one.\<close>

fun pick_latest :: "Task \<Rightarrow> Task list \<Rightarrow> Task" where
  "pick_latest best [] = best"
| "pick_latest best (t # ts) =
     pick_latest (if updated_at t > updated_at best then t else best) ts"

definition markCustomerActivityByContact :: "world \<Rightarrow> string \<Rightarrow> date \<Rightarrow> world" where
  "markCustomerActivityByContact w customerContact now =
     (case findAssignedByCustomerContact (tasks w) customerContact of
        [] \<Rightarrow> w
      | c # cs \<Rightarrow>
          (let latest = pick_latest c cs;
               (r, tbl) = markCustomerActivity_repo (tasks w) (task_id latest) now now
           in w\<lparr> tasks := tbl, sched := cancel (sched w) (task_id latest) \<rparr>))"

definition sendInternalPingIfInactive :: "env \<Rightarrow> world \<Rightarrow> string \<Rightarrow> date \<Rightarrow> world" where
  "sendInternalPingIfInactive e w taskId now =
     (case findById (tasks w) taskId of
        None \<Rightarrow> w
      | Some task \<Rightarrow>
          (if status task \<noteq> StAssigned then w
           else (case greeting_sent_at task of
                   None \<Rightarrow> w
                 | Some greetingSentAt \<Rightarrow>
                     (if ping_sent_at task \<noteq> None then w
                      else if later_than (last_customer_activity_at task) greetingSentAt then w
                      else (let (ok, w1) = sendSMS e w (customer_contact task)
                                             (stillInChatMessage (customer_name task))
                            in if \<not> ok then w1
                               else w1\<lparr> tasks := snd (markPingSent (tasks w1) taskId now now) \<rparr>)))))"

definition sendInternalInactiveAndClose :: "env \<Rightarrow> world \<Rightarrow> string \<Rightarrow> date \<Rightarrow> world" where
  "sendInternalInactiveAndClose e w taskId now =
     (case findById (tasks w) taskId of
        None \<Rightarrow> w
      | Some task \<Rightarrow>
          (if status task \<noteq> StAssigned then w
           else (case greeting_sent_at task of
                   None \<Rightarrow> w
                 | Some greetingSentAt \<Rightarrow>
                     (if inactive_sent_at task \<noteq> None then w
                      else if later_than (last_customer_activity_at task) greetingSentAt then w
                      else (let (ok, w1) = sendSMS e w (customer_contact task)
                                             (inactivityCloseMessage (customer_name task))
                            in if \<not> ok then w1
                               else w1\<lparr> tasks := snd (closeDueToInactivity (tasks w1) taskId
                                                         now now),
                                        sched := cancel (sched w1) taskId \<rparr>)))))"

section \<open>Example states\<close>

definition task_example :: Task where
  "task_example =
     \<lparr> task_id = ''t1'', customer_name = ''Ana'', customer_contact = ''+5501'',
       operator_id = Some ''O1'', operator_name = Some ''Bia'', status = StAssigned,
       created_at = 100, updated_at = 6000, assigned_at = Some 200,
       greeting_sent_at = Some 1000, ping_sent_at = Some 6000, inactive_sent_at = None,
       last_customer_activity_at = None, closed_at = None, close_reason = None \<rparr>"


definition flex_example :: FlexTaskState where
  "flex_example =
     \<lparr> task_sid = ''WT1'', conversation_sid = Some ''CH1'', channel_type = Some ''whatsapp'',
       flex_customer_name = Some ''Ana'', customer_address = None,
       customer_from = Some ''+5501'', worker_sid = Some ''WK1'', worker_name = Some ''Bia'',
       task_assignment_status = Some ''assigned'', task_attributes = Some ''{}'',
       flex_greeting_sent_at = Some 1000, flex_ping_sent_at = Some 6000,
       flex_inactive_sent_at = None, flex_last_customer_activity_at = None,
       flex_created_at = Some 900, flex_updated_at = 6000 \<rparr>"

definition sched_empty :: scheduler where
  "sched_empty = \<lparr> timers = Map.empty, armed = Map.empty, next_handle = 0 \<rparr>"


definition world_example :: "tasks_table \<Rightarrow> world" where
  "world_example tbl =
     \<lparr> tasks = tbl, flex_tasks = [], flex_tasks_by_conversation = [], sched = sched_empty,
       twilioClient = False, workspaceSid = None, twilioConfigWarned = False,
       workspaceResolveWarned = False, workerNameCache = Map.empty,
       warnedWorkerParticipantMissing = {}, sms_log = [], message_log = [],
       close_log = [], complete_log = [] \<rparr>"

definition env_example :: env where
  "env_example =
     \<lparr> TASKS_AUTO_SOURCE = None, TASKS_AUTO_BATCH_SIZE = None, TASKS_FLEX_POLL_LIMIT = None,
       TASKS_AUTOMATION_AUTHOR = None, TASKS_FLEX_CLOSE_CONVERSATION = None,
       TASKS_FLEX_COMPLETE_TASK = None, TWILIO_ACCOUNT_SID = Some ''AC1'',
       TWILIO_AUTH_TOKEN = Some ''secret'', TWILIO_PHONE_NUMBER = Some ''+5500'',
       TWILIO_TASKROUTER_WORKSPACE_SID = Some ''WS1'',
       json_parse = (\<lambda>s. None), sms_create = (\<lambda>to body. True),
       message_create = (\<lambda>c a b. True), workspaces_list = Inr [],
       tasks_list = (\<lambda>ws limit. Inr []), reservations_list = (\<lambda>ws t. Inr []),
       participants_list = (\<lambda>c. Inr []), worker_fetch = (\<lambda>ws wk. Inl ProviderError),
       conversation_close = (\<lambda>c. True), task_complete = (\<lambda>ws t. True) \<rparr>"

definition greeted_example :: Task where
  "greeted_example = task_example\<lparr> ping_sent_at := None, updated_at := 1000 \<rparr>"

section \<open>Customer activity on flex tasks\<close>

definition getAutomationAuthor :: "env \<Rightarrow> string" where
  "getAutomationAuthor e =
     (if truthy (TASKS_AUTOMATION_AUTHOR e) then or_empty (TASKS_AUTOMATION_AUTHOR e)
      else ''System'')"

definition markFlexCustomerActivityByConversationSid ::
  "env \<Rightarrow> world \<Rightarrow> string \<Rightarrow> string option \<Rightarrow> date \<Rightarrow> world" where
  "markFlexCustomerActivityByConversationSid e w conversationSid author now =
     (let trimmedAuthor = map_option trim author
      in if \<not> truthy trimmedAuthor then w
         else (case findByConversationSid (flex_tasks w) (flex_tasks_by_conversation w)
                      conversationSid of
                 None \<Rightarrow> w
               | Some state \<Rightarrow>
                   (let customerAddress = map_option trim (customer_address state);
                        customerFrom = map_option trim (customer_from state);
                        hasKnownCustomer = (truthy customerAddress \<or> truthy customerFrom);
                        marked = w\<lparr> flex_tasks := flex_markCustomerActivity (flex_tasks w)
                                                      (task_sid state) now now,
                                    sched := cancel (sched w) (task_sid state) \<rparr>
                    in if hasKnownCustomer
                       then (if trimmedAuthor \<noteq> customerAddress \<and> trimmedAuthor \<noteq> customerFrom
                             then w else marked)
                       else if or_empty trimmedAuthor = getAutomationAuthor e then w
                       else if truthy (worker_name state) \<and> trimmedAuthor = worker_name state
                       then w
                       else if truthy (worker_sid state) \<and> trimmedAuthor = worker_sid state
                       then w
                       else marked)))"


section \<open>Worker-participant identity resolution\<close>

definition normalize :: "string option \<Rightarrow> string" where
  "normalize v = (case v of None \<Rightarrow> [] | Some s \<Rightarrow> toLowerCase (trim s))"

text \<open>\<open>String.prototype.includes\<close> and \<open>startsWith\<close>.\<close>

fun includes_str :: "string \<Rightarrow> string \<Rightarrow> bool" where
  "includes_str [] sub = (sub = [])"
| "includes_str (c # cs) sub = (prefix sub (c # cs) \<or> includes_str cs sub)"

definition startsWith :: "string \<Rightarrow> string \<Rightarrow> bool" where
  "startsWith s p = prefix p s"

text \<open>
  Reading a property of a parsed JSON value: of an object, the member of that name or
  \<open>undefined\<close>; of \<open>null\<close>, a \<open>TypeError\<close>; of a boolean, number, string or array,
  \<open>undefined\<close> for every name read here.
\<close>

fun get_prop :: "json \<Rightarrow> string \<Rightarrow> error + json option" where
  "get_prop JNull k = Inl TypeError"
| "get_prop (JObject kvs) k = Inr (map_of kvs k)"
| "get_prop j k = Inr None"

definition parseTaskAttributes :: "env \<Rightarrow> string \<Rightarrow> json" where
  "parseTaskAttributes e raw = (case json_parse e raw of None \<Rightarrow> JObject [] | Some j \<Rightarrow> j)"

text \<open>\<open>parseTaskAttributes(x || '{}')\<close>: the parse of \<open>'{}'\<close> is the empty object.\<close>

definition parseAttributesOrEmpty :: "env \<Rightarrow> string option \<Rightarrow> json" where
  "parseAttributesOrEmpty e raw =
     (if truthy raw then parseTaskAttributes e (or_empty raw) else JObject [])"

text \<open>The first candidate that is a string with a non-blank trim, trimmed.\<close>

fun first_string_candidate :: "json option list \<Rightarrow> string option" where
  "first_string_candidate [] = None"
| "first_string_candidate (Some (JString s) # cs) =
     (if trim s \<noteq> [] then Some (trim s) else first_string_candidate cs)"
| "first_string_candidate (c # cs) = first_string_candidate cs"

fun props :: "json \<Rightarrow> string list \<Rightarrow> error + json option list" where
  "props j [] = Inr []"
| "props j (k # ks) =
     (case get_prop j k of
        Inl err \<Rightarrow> Inl err
      | Inr v \<Rightarrow> (case props j ks of Inl err \<Rightarrow> Inl err | Inr vs \<Rightarrow> Inr (v # vs)))"

definition pickWorkerNameFromAttributes :: "json \<Rightarrow> error + string option" where
  "pickWorkerNameFromAttributes attrs =
     (case props attrs [''full_name'', ''fullName'', ''fullname'', ''name''] of
        Inl err \<Rightarrow> Inl err
      | Inr candidates \<Rightarrow> Inr (first_string_candidate candidates))"

definition pickWorkerSidFromAttributes :: "json \<Rightarrow> error + string option" where
  "pickWorkerSidFromAttributes attrs =
     (case props attrs [''workerSid'', ''worker_sid'', ''worker_id'', ''workerId''] of
        Inl err \<Rightarrow> Inl err
      | Inr candidates \<Rightarrow> Inr (first_string_candidate candidates))"

text \<open>The \<open>identity\<close> each loop works with: the trimmed identity, or the empty string.\<close>

definition identity_of :: "participant \<Rightarrow> string" where
  "identity_of p = (case p_identity p of None \<Rightarrow> [] | Some s \<Rightarrow> trim s)"

definition customerMarkers :: "string option \<Rightarrow> string option \<Rightarrow> string set" where
  "customerMarkers customerAddress customerFrom =
     set (filter (\<lambda>s. s \<noteq> []) (map normalize [customerAddress, customerFrom]))"

definition isCustomerParticipant :: "string set \<Rightarrow> participant \<Rightarrow> bool" where
  "isCustomerParticipant markers p =
     (let identity = normalize (p_identity p)
      in if identity \<noteq> [] \<and> identity \<in> markers then True
         else (let bindingAddress = normalize (p_bindingAddress p)
               in if bindingAddress \<noteq> [] \<and> bindingAddress \<in> markers then True else False))"

text \<open>The five loops over the participants, each returning at its first match.\<close>

fun loop_identity_is_sid :: "bool \<Rightarrow> string \<Rightarrow> participant list \<Rightarrow> string option" where
  "loop_identity_is_sid hasWorkerSid normalizedWorkerSid [] = None"
| "loop_identity_is_sid hasWorkerSid normalizedWorkerSid (p # ps) =
     (if identity_of p = [] then loop_identity_is_sid hasWorkerSid normalizedWorkerSid ps
      else if hasWorkerSid \<and> normalize (Some (identity_of p)) = normalizedWorkerSid
      then Some (identity_of p)
      else loop_identity_is_sid hasWorkerSid normalizedWorkerSid ps)"

fun loop_identity_is_name :: "string \<Rightarrow> participant list \<Rightarrow> string option" where
  "loop_identity_is_name normalizedWorkerName [] = None"
| "loop_identity_is_name normalizedWorkerName (p # ps) =
     (if identity_of p = [] then loop_identity_is_name normalizedWorkerName ps
      else if normalize (Some (identity_of p)) = normalizedWorkerName
      then Some (identity_of p)
      else loop_identity_is_name normalizedWorkerName ps)"

fun loop_attributes_sid ::
  "env \<Rightarrow> string \<Rightarrow> participant list \<Rightarrow> error + string option" where
  "loop_attributes_sid e normalizedWorkerSid [] = Inr None"
| "loop_attributes_sid e normalizedWorkerSid (p # ps) =
     (if identity_of p = [] then loop_attributes_sid e normalizedWorkerSid ps
      else (case pickWorkerSidFromAttributes (parseAttributesOrEmpty e (p_attributes p)) of
              Inl err \<Rightarrow> Inl err
            | Inr sidFromAttrs \<Rightarrow>
                (if truthy sidFromAttrs \<and> normalize sidFromAttrs = normalizedWorkerSid
                 then Inr (Some (identity_of p))
                 else loop_attributes_sid e normalizedWorkerSid ps)))"

fun loop_raw_attributes :: "string \<Rightarrow> participant list \<Rightarrow> string option" where
  "loop_raw_attributes workerSidValue [] = None"
| "loop_raw_attributes workerSidValue (p # ps) =
     (if identity_of p = [] then loop_raw_attributes workerSidValue ps
      else (case p_attributes p of
              Some rawAttrs \<Rightarrow>
                (if includes_str rawAttrs workerSidValue then Some (identity_of p)
                 else loop_raw_attributes workerSidValue ps)
            | None \<Rightarrow> loop_raw_attributes workerSidValue ps))"

fun candidateIdentities :: "string set \<Rightarrow> participant list \<Rightarrow> string list" where
  "candidateIdentities markers [] = []"
| "candidateIdentities markers (p # ps) =
     (if identity_of p = [] then candidateIdentities markers ps
      else if isCustomerParticipant markers p then candidateIdentities markers ps
      else identity_of p # candidateIdentities markers ps)"

text \<open>The body of the \<open>try\<close> block, on the participants listed.\<close>

definition resolve_in_participants ::
  "env \<Rightarrow> participant list \<Rightarrow> string option \<Rightarrow> string option \<Rightarrow> string option \<Rightarrow>
   string option \<Rightarrow> error + string option" where
  "resolve_in_participants e participants workerSid workerName customerAddress customerFrom =
     (let normalizedWorkerSid = normalize workerSid;
          normalizedWorkerName = normalize workerName;
          hasWorkerSid = (normalizedWorkerSid \<noteq> []);
          workerSidValue = or_empty workerSid;
          markers = customerMarkers customerAddress customerFrom;
          last_rule = (case candidateIdentities markers participants of
                         [c] \<Rightarrow> Some c
                       | _ \<Rightarrow> None)
      in case loop_identity_is_sid hasWorkerSid normalizedWorkerSid participants of
           Some i \<Rightarrow> Inr (Some i)
         | None \<Rightarrow>
             (case (if normalizedWorkerName \<noteq> []
                    then loop_identity_is_name normalizedWorkerName participants
                    else None) of
                Some i \<Rightarrow> Inr (Some i)
              | None \<Rightarrow>
                  (if hasWorkerSid
                   then (case loop_attributes_sid e normalizedWorkerSid participants of
                           Inl err \<Rightarrow> Inl err
                         | Inr (Some i) \<Rightarrow> Inr (Some i)
                         | Inr None \<Rightarrow>
                             (case loop_raw_attributes workerSidValue participants of
                                Some i \<Rightarrow> Inr (Some i)
                              | None \<Rightarrow> Inr last_rule))
                   else Inr last_rule)))"

text \<open>\<open>resolveWorkerParticipantIdentity\<close>: whatever is thrown inside, by the listing or by
  reading a property of \<open>null\<close>, is caught and gives \<open>null\<close>.\<close>

definition resolveWorkerParticipantIdentity ::
  "env \<Rightarrow> string \<Rightarrow> string option \<Rightarrow> string option \<Rightarrow> string option \<Rightarrow> string option \<Rightarrow>
   string option" where
  "resolveWorkerParticipantIdentity e conversationSid workerSid workerName customerAddress
     customerFrom =
     (case participants_list e conversationSid of
        Inl err \<Rightarrow> None
      | Inr participants \<Rightarrow>
          (case resolve_in_participants e participants workerSid workerName customerAddress
                  customerFrom of
             Inl err \<Rightarrow> None
           | Inr r \<Rightarrow> r))"











section \<open>The reconciliation tick (tasks.service.ts, tasks.worker.ts)\<close>

subsection \<open>Internal pipeline\<close>

text \<open>\<open>Number(process.env.X) || d\<close>: \<open>NaN\<close> and 0 give the default.\<close>

definition number_or :: "int option \<Rightarrow> int \<Rightarrow> int" where
  "number_or v d = (case v of None \<Rightarrow> d | Some n \<Rightarrow> (if n = 0 then d else n))"

text \<open>The body of the loop over the assigned tasks, on the task as it was listed.\<close>

definition processInternalTask :: "env \<Rightarrow> date \<Rightarrow> world \<Rightarrow> Task \<Rightarrow> world" where
  "processInternalTask e now w task =
     (if status task \<noteq> StAssigned then w
      else if \<not> truthy (operator_id task) \<or> \<not> truthy (operator_name task) then w
      else (case greeting_sent_at task of
              Some greetingSentAt \<Rightarrow>
                (if later_than (last_customer_activity_at task) greetingSentAt
                 then w\<lparr> sched := cancel (sched w) (task_id task) \<rparr>
                 else if inactive_sent_at task \<noteq> None
                 then w\<lparr> sched := cancel (sched w) (task_id task) \<rparr>
                 else scheduleInternalInactivityTimers w task now)
            | None \<Rightarrow>
                (let (ok, w1) = sendSMS e w (customer_contact task)
                                  (operatorHandoffMessage (customer_name task)
                                     (or_empty (operator_name task)))
                 in if \<not> ok then w1
                    else (case setGreetingSent (tasks w1) (task_id task) now now of
                            (None, tbl) \<Rightarrow> w1\<lparr> tasks := tbl \<rparr>
                          | (Some updated, tbl) \<Rightarrow>
                              scheduleInternalInactivityTimers (w1\<lparr> tasks := tbl \<rparr>) updated
                                now))))"

definition autoProcessInternalAssignedTasks :: "env \<Rightarrow> world \<Rightarrow> date \<Rightarrow> world" where
  "autoProcessInternalAssignedTasks e w now =
     (let batchSize = number_or (TASKS_AUTO_BATCH_SIZE e) 100;
          assignedTasks = findByStatus (tasks w) StAssigned batchSize
      in foldl (processInternalTask e now) w assignedTasks)"

subsection \<open>Flex pipeline\<close>

definition getTwilioClient :: "env \<Rightarrow> world \<Rightarrow> bool \<times> world" where
  "getTwilioClient e w =
     (if twilioClient w then (True, w)
      else if \<not> truthy (TWILIO_ACCOUNT_SID e) \<or> \<not> truthy (TWILIO_AUTH_TOKEN e)
      then (False, w\<lparr> twilioConfigWarned := True \<rparr>)
      else (True, w\<lparr> twilioClient := True \<rparr>))"

definition adopt_workspace :: "world \<Rightarrow> workspace \<Rightarrow> (error + string option) \<times> world" where
  "adopt_workspace w ws = (Inr (Some (ws_sid ws)), w\<lparr> workspaceSid := Some (ws_sid ws) \<rparr>)"

definition resolveWorkspaceSid :: "env \<Rightarrow> world \<Rightarrow> (error + string option) \<times> world" where
  "resolveWorkspaceSid e w =
     (if truthy (workspaceSid w) then (Inr (workspaceSid w), w)
      else if truthy (TWILIO_TASKROUTER_WORKSPACE_SID e)
      then (Inr (TWILIO_TASKROUTER_WORKSPACE_SID e),
            w\<lparr> workspaceSid := TWILIO_TASKROUTER_WORKSPACE_SID e \<rparr>)
      else (case workspaces_list e of
              Inl err \<Rightarrow> (Inl err, w)
            | Inr workspaces \<Rightarrow>
                (case workspaces of
                   [ws] \<Rightarrow> adopt_workspace w ws
                 | _ \<Rightarrow>
                     (case filter (\<lambda>ws. includes_str
                                          (toLowerCase (or_empty (ws_friendlyName ws))) ''flex'')
                             workspaces of
                        [ws] \<Rightarrow> adopt_workspace w ws
                      | _ \<Rightarrow> (Inr None, w\<lparr> workspaceResolveWarned := True \<rparr>)))))"

text \<open>A property of attributes already known not to be \<open>null\<close>; \<open>typeof v === 'string'\<close>;
  and the optional chain \<open>v?.name\<close>.\<close>

definition field :: "json \<Rightarrow> string \<Rightarrow> json option" where
  "field j k = (case get_prop j k of Inl err \<Rightarrow> None | Inr v \<Rightarrow> v)"

definition string_of :: "json option \<Rightarrow> string option" where
  "string_of v = (case v of Some (JString s) \<Rightarrow> Some s | _ \<Rightarrow> None)"

definition chain_field :: "json option \<Rightarrow> string \<Rightarrow> json option" where
  "chain_field v k = (case v of None \<Rightarrow> None | Some JNull \<Rightarrow> None | Some j \<Rightarrow> field j k)"

definition pickCustomerName :: "json \<Rightarrow> string" where
  "pickCustomerName attrs =
     (case first_string_candidate
             [chain_field (field attrs ''customers'') ''name'', field attrs ''friendlyName'',
              field attrs ''from''] of
        Some s \<Rightarrow> s
      | None \<Rightarrow> ''cliente'')"

definition resolveWorkerDisplayName ::
  "env \<Rightarrow> world \<Rightarrow> string \<Rightarrow> string option \<Rightarrow> string \<Rightarrow> string \<times> world" where
  "resolveWorkerDisplayName e w wsSid workerSid fallbackName =
     (let fallback = (if trim fallbackName \<noteq> [] then trim fallbackName else ''Atendente'')
      in if \<not> truthy workerSid \<or> trim (or_empty workerSid) = [] then (fallback, w)
         else if truthy (workerNameCache w (or_empty workerSid))
         then (or_empty (workerNameCache w (or_empty workerSid)), w)
         else (case worker_fetch e wsSid (or_empty workerSid) of
                 Inl err \<Rightarrow>
                   (fallback,
                    w\<lparr> workerNameCache := (workerNameCache w)(or_empty workerSid \<mapsto> fallback) \<rparr>)
               | Inr wk \<Rightarrow>
                   (case pickWorkerNameFromAttributes
                           (parseAttributesOrEmpty e (wk_attributes wk)) of
                      Inl err \<Rightarrow>
                        (fallback,
                         w\<lparr> workerNameCache :=
                              (workerNameCache w)(or_empty workerSid \<mapsto> fallback) \<rparr>)
                    | Inr fromAttrs \<Rightarrow>
                        (let resolved =
                               (if truthy fromAttrs then or_empty fromAttrs
                                else if trim (or_empty (wk_friendlyName wk)) \<noteq> []
                                then trim (or_empty (wk_friendlyName wk))
                                else fallback)
                         in (resolved,
                             w\<lparr> workerNameCache :=
                                  (workerNameCache w)(or_empty workerSid \<mapsto> resolved) \<rparr>)))))"

definition sendConversationMessage ::
  "env \<Rightarrow> world \<Rightarrow> string \<Rightarrow> string \<Rightarrow> string option \<Rightarrow> bool \<times> world" where
  "sendConversationMessage e w conversationSid body author =
     (let (client, w1) = getTwilioClient e w
      in if \<not> client then (False, w1)
         else (let a = (if truthy (map_option trim author) then or_empty (map_option trim author)
                        else getAutomationAuthor e)
               in (message_create e conversationSid a body,
                   w1\<lparr> message_log := message_log w1 @ [(conversationSid, a, body)] \<rparr>)))"

definition scheduleFlexInactivityTimers :: "world \<Rightarrow> string \<Rightarrow> date \<Rightarrow> date \<Rightarrow> world" where
  "scheduleFlexInactivityTimers w taskSid greetingSentAt now =
     (if has (sched w) taskSid then w
      else w\<lparr> sched := schedule (sched w) taskSid greetingSentAt (FlexPing taskSid)
                         (FlexInactive taskSid) now \<rparr>)"

text \<open>The choice of the worker's display name for one provider task.\<close>

definition chooseWorkerName ::
  "env \<Rightarrow> world \<Rightarrow> string \<Rightarrow> string option \<Rightarrow> string \<Rightarrow> FlexTaskState option \<Rightarrow>
   string \<times> world" where
  "chooseWorkerName e w wsSid workerSid fallbackWorkerName existingState =
     (let storedWorkerName =
            (case existingState of None \<Rightarrow> None | Some st \<Rightarrow> map_option trim (worker_name st))
      in if \<not> truthy storedWorkerName
         then (if truthy workerSid
               then resolveWorkerDisplayName e w wsSid workerSid fallbackWorkerName
               else (fallbackWorkerName, w))
         else if truthy workerSid \<and>
                 (or_empty storedWorkerName = ''Atendente'' \<or>
                  or_empty storedWorkerName = fallbackWorkerName)
         then resolveWorkerDisplayName e w wsSid workerSid fallbackWorkerName
         else (or_empty storedWorkerName, w))"

text \<open>What follows \<open>upsertBaseState\<close> for one provider task: re-arming for a task already
  greeted, the greeting otherwise. \<open>existingState\<close> is the row read before the upsert.\<close>

definition greetOrRearm ::
  "env \<Rightarrow> date \<Rightarrow> world \<Rightarrow> string \<Rightarrow> string \<Rightarrow> string option \<Rightarrow> string \<Rightarrow> string \<Rightarrow>
   string option \<Rightarrow> string option \<Rightarrow> FlexTaskState option \<Rightarrow> world" where
  "greetOrRearm e now w taskSid conversationSid workerSid workerName customerName
     customerAddress customerFrom existingState =
     (case (case existingState of None \<Rightarrow> None | Some st \<Rightarrow> flex_greeting_sent_at st) of
        Some greetingSentAt \<Rightarrow>
          (if later_than (case existingState of None \<Rightarrow> None
                          | Some st \<Rightarrow> flex_last_customer_activity_at st) greetingSentAt
           then w\<lparr> sched := cancel (sched w) taskSid \<rparr>
           else if (case existingState of None \<Rightarrow> None
                    | Some st \<Rightarrow> flex_inactive_sent_at st) \<noteq> None
           then w\<lparr> sched := cancel (sched w) taskSid \<rparr>
           else scheduleFlexInactivityTimers w taskSid greetingSentAt now)
      | None \<Rightarrow>
          (let workerIdentity = resolveWorkerParticipantIdentity e conversationSid workerSid
                                  (Some workerName) customerAddress customerFrom
           in if \<not> truthy workerIdentity
              then w\<lparr> warnedWorkerParticipantMissing :=
                        insert taskSid (warnedWorkerParticipantMissing w) \<rparr>
              else (let w1 = w\<lparr> warnedWorkerParticipantMissing :=
                                  warnedWorkerParticipantMissing w - {taskSid} \<rparr>;
                        (ok, w2) = sendConversationMessage e w1 conversationSid
                                     (operatorHandoffMessage customerName workerName)
                                     workerIdentity
                    in if \<not> ok then w2
                       else scheduleFlexInactivityTimers
                              (w2\<lparr> flex_tasks := flex_setGreetingSent (flex_tasks w2) taskSid
                                                     now now \<rparr>)
                              taskSid now now)))"

text \<open>The constants of the loop body that depend on the reservation, and the object it
  passes to \<open>upsertBaseState\<close>.\<close>

definition fallbackWorkerNameOf :: "reservation \<Rightarrow> string" where
  "fallbackWorkerNameOf reservation =
     (if trim (or_empty (res_workerName reservation)) \<noteq> []
      then trim (or_empty (res_workerName reservation))
      else ''Atendente'')"

definition workerSidOf :: "reservation \<Rightarrow> string option" where
  "workerSidOf reservation =
     (if truthy (res_workerSid reservation) then res_workerSid reservation else None)"

definition baseStateInput ::
  "provider_task \<Rightarrow> json \<Rightarrow> string \<Rightarrow> reservation \<Rightarrow> string \<Rightarrow> upsert_input" where
  "baseStateInput task attrs conversationSid reservation workerName =
     \<lparr> in_taskSid = pt_sid task,
       in_conversationSid = Some conversationSid,
       in_channelType = string_of (field attrs ''channelType''),
       in_customerName = Some (pickCustomerName attrs),
       in_customerAddress = string_of (field attrs ''customerAddress''),
       in_customerFrom = string_of (field attrs ''from''),
       in_workerSid = workerSidOf reservation,
       in_workerName = Some workerName,
       in_assignmentStatus = Some (pt_assignmentStatus task),
       in_taskAttributes = Some (pt_attributes task) \<rparr>"

text \<open>The loop body for a task that has a conversation and an accepted reservation.\<close>

definition processListedTask ::
  "env \<Rightarrow> string \<Rightarrow> date \<Rightarrow> world \<Rightarrow> provider_task \<Rightarrow> json \<Rightarrow> string \<Rightarrow> reservation \<Rightarrow>
   world" where
  "processListedTask e wsSid now w task attrs conversationSid reservation =
     (let existingState = findByTaskSid (flex_tasks w) (pt_sid task);
          (workerName, w1) = chooseWorkerName e w wsSid (workerSidOf reservation)
                               (fallbackWorkerNameOf reservation) existingState;
          (tbl, lookup) = upsertBaseState (flex_tasks w1) (flex_tasks_by_conversation w1)
                            (baseStateInput task attrs conversationSid reservation workerName)
                            now;
          w2 = w1\<lparr> flex_tasks := tbl, flex_tasks_by_conversation := lookup \<rparr>
      in greetOrRearm e now w2 (pt_sid task) conversationSid (workerSidOf reservation)
           workerName (pickCustomerName attrs) (string_of (field attrs ''customerAddress''))
           (string_of (field attrs ''from'')) existingState)"

text \<open>The body of the loop over the provider's tasks. An error is what the loop throws:
  a \<open>TypeError\<close> on attributes that parse to \<open>null\<close>, or the failure of the reservation
  listing.\<close>

definition processFlexTask ::
  "env \<Rightarrow> string \<Rightarrow> date \<Rightarrow> world \<Rightarrow> provider_task \<Rightarrow> error option \<times> world" where
  "processFlexTask e wsSid now w task =
     (let attrs = parseTaskAttributes e (pt_attributes task)
      in case get_prop attrs ''conversationSid'' of
           Inl err \<Rightarrow> (Some err, w)
         | Inr c \<Rightarrow>
             (case string_of c of
                None \<Rightarrow> (None, w)
              | Some conversationSid \<Rightarrow>
                  (if \<not> startsWith conversationSid ''CH'' then (None, w)
                   else (case reservations_list e wsSid (pt_sid task) of
                           Inl err \<Rightarrow> (Some err, w)
                         | Inr [] \<Rightarrow> (None, w)
                         | Inr (reservation # rest) \<Rightarrow>
                             (None,
                              processListedTask e wsSid now w task attrs conversationSid
                                reservation)))))"

fun processFlexTasks ::
  "env \<Rightarrow> string \<Rightarrow> date \<Rightarrow> world \<Rightarrow> provider_task list \<Rightarrow> error option \<times> world" where
  "processFlexTasks e wsSid now w [] = (None, w)"
| "processFlexTasks e wsSid now w (task # rest) =
     (case processFlexTask e wsSid now w task of
        (Some err, w') \<Rightarrow> (Some err, w')
      | (None, w') \<Rightarrow> processFlexTasks e wsSid now w' rest)"

definition autoProcessFlexAssignedTasks :: "env \<Rightarrow> world \<Rightarrow> date \<Rightarrow> (error + bool) \<times> world" where
  "autoProcessFlexAssignedTasks e w now =
     (let (client, w1) = getTwilioClient e w
      in if \<not> client then (Inr False, w1)
         else (case resolveWorkspaceSid e w1 of
                 (Inl err, w2) \<Rightarrow> (Inl err, w2)
               | (Inr wsSid, w2) \<Rightarrow>
                   (if \<not> truthy wsSid then (Inr False, w2)
                    else (let limit = number_or (TASKS_FLEX_POLL_LIMIT e) 50
                          in case tasks_list e (or_empty wsSid) limit of
                               Inl err \<Rightarrow> (Inl err, w2)
                             | Inr provider_tasks \<Rightarrow>
                                 (case processFlexTasks e (or_empty wsSid) now w2
                                         provider_tasks of
                                    (Some err, w3) \<Rightarrow> (Inl err, w3)
                                  | (None, w3) \<Rightarrow> (Inr True, w3))))))"

subsection \<open>The tick\<close>

text \<open>\<open>autoProcessAssignedTasks\<close>: \<open>Some err\<close> is the error it throws, which the worker's
  \<open>tick\<close> catches and logs.\<close>

definition sourceMode :: "env \<Rightarrow> string" where
  "sourceMode e =
     toLowerCase (if truthy (TASKS_AUTO_SOURCE e) then or_empty (TASKS_AUTO_SOURCE e)
                  else ''auto'')"

definition internalUnlessFlex :: "env \<Rightarrow> world \<Rightarrow> date \<Rightarrow> error option \<times> world" where
  "internalUnlessFlex e w now =
     (if sourceMode e \<noteq> ''flex'' then (None, autoProcessInternalAssignedTasks e w now)
      else (None, w))"

definition autoProcessAssignedTasks :: "env \<Rightarrow> world \<Rightarrow> date \<Rightarrow> error option \<times> world" where
  "autoProcessAssignedTasks e w now =
     (if sourceMode e \<noteq> ''internal''
      then (case autoProcessFlexAssignedTasks e w now of
              (Inl err, w1) \<Rightarrow> (Some err, w1)
            | (Inr processedFlex, w1) \<Rightarrow>
                (if processedFlex \<or> sourceMode e = ''flex'' then (None, w1)
                 else internalUnlessFlex e w1 now))
      else internalUnlessFlex e w now)"

definition tick :: "env \<Rightarrow> world \<Rightarrow> date \<Rightarrow> world" where
  "tick e w now = snd (autoProcessAssignedTasks e w now)"

text \<open>The persistence state: the three tables.\<close>

definition persistence ::
  "world \<Rightarrow> tasks_table \<times> flex_table \<times> (string \<times> string) list" where
  "persistence w = (tasks w, flex_tasks w, flex_tasks_by_conversation w)"

definition ungreeted_example :: Task where
  "ungreeted_example =
     task_example\<lparr> greeting_sent_at := None, ping_sent_at := None, updated_at := 200 \<rparr>"

section \<open>Auxiliary notions for the tick\<close>

text \<open>
  When the internal pipeline writes: the task as listed is assigned to an operator, has no
  greeting stamp, and its greeting SMS succeeds. The row a greeting leaves, and the table
  after the rows with keys in \<open>G\<close> were greeted. A table is well formed when its keys are
  distinct and each row carries its key as id, as \<open>create\<close> writes them.
\<close>

definition needs_greeting :: "env \<Rightarrow> Task \<Rightarrow> bool" where
  "needs_greeting e t =
     (status t = StAssigned \<and> truthy (operator_id t) \<and> truthy (operator_name t) \<and>
      greeting_sent_at t = None \<and> validateConfig e \<and>
      sms_create e (customer_contact t)
        (operatorHandoffMessage (customer_name t) (or_empty (operator_name t))))"

definition greeted :: "date \<Rightarrow> Task \<Rightarrow> Task" where
  "greeted now r =
     r\<lparr> greeting_sent_at := Some now, ping_sent_at := None, inactive_sent_at := None,
        updated_at := now \<rparr>"

definition greet_tbl :: "env \<Rightarrow> date \<Rightarrow> tasks_table \<Rightarrow> Task \<Rightarrow> tasks_table" where
  "greet_tbl e now tbl t =
     (if needs_greeting e t then snd (setGreetingSent tbl (task_id t) now now) else tbl)"

definition greet_keys :: "string set \<Rightarrow> date \<Rightarrow> tasks_table \<Rightarrow> tasks_table" where
  "greet_keys G now tbl = map (\<lambda>(k, r). (k, if k \<in> G then greeted now r else r)) tbl"

definition table_ok :: "tasks_table \<Rightarrow> bool" where
  "table_ok tbl = (distinct (map fst tbl) \<and> list_all (\<lambda>(k, r). task_id r = k) tbl)"

text \<open>A tick runs the internal pipeline in mode "internal", and in mode "auto" when the
  flex pipeline reports \<open>false\<close>.\<close>

definition runs_internal :: "env \<Rightarrow> world \<Rightarrow> date \<Rightarrow> bool" where
  "runs_internal e w now =
     (sourceMode e = ''internal'' \<or>
      (sourceMode e \<noteq> ''flex'' \<and> fst (autoProcessFlexAssignedTasks e w now) = Inr False))"

section \<open>The timer callbacks of flex tasks\<close>

definition closeConversation :: "env \<Rightarrow> world \<Rightarrow> string \<Rightarrow> world" where
  "closeConversation e w conversationSid =
     (let (client, w1) = getTwilioClient e w
      in if \<not> client then w1
         else w1\<lparr> close_log := close_log w1 @ [conversationSid] \<rparr>)"

text \<open>\<open>completeTaskRouterTask\<close> resolves the workspace outside its \<open>try\<close>: a failure of
  the workspace listing is thrown to the caller.\<close>

definition completeTaskRouterTask :: "env \<Rightarrow> world \<Rightarrow> string \<Rightarrow> error option \<times> world" where
  "completeTaskRouterTask e w taskSid =
     (let (client, w1) = getTwilioClient e w
      in if \<not> client then (None, w1)
         else (case resolveWorkspaceSid e w1 of
                 (Inl err, w2) \<Rightarrow> (Some err, w2)
               | (Inr wsSid, w2) \<Rightarrow>
                   (if \<not> truthy wsSid then (None, w2)
                    else (None,
                          w2\<lparr> complete_log := complete_log w2 @ [(or_empty wsSid, taskSid)] \<rparr>))))"

definition customerNameOrDefault :: "FlexTaskState \<Rightarrow> string" where
  "customerNameOrDefault task =
     (if truthy (flex_customer_name task) then or_empty (flex_customer_name task)
      else ''cliente'')"

definition sendFlexPingIfInactive :: "env \<Rightarrow> world \<Rightarrow> string \<Rightarrow> date \<Rightarrow> world" where
  "sendFlexPingIfInactive e w taskSid now =
     (case findByTaskSid (flex_tasks w) taskSid of
        None \<Rightarrow> w
      | Some task \<Rightarrow>
          (case flex_greeting_sent_at task of
             None \<Rightarrow> w
           | Some greetingSentAt \<Rightarrow>
               (if flex_ping_sent_at task \<noteq> None then w
                else if \<not> truthy (conversation_sid task) then w
                else if later_than (flex_last_customer_activity_at task) greetingSentAt then w
                else (let (client, w1) = getTwilioClient e w
                      in if \<not> client then w1
                         else (let workerIdentity =
                                     resolveWorkerParticipantIdentity e
                                       (or_empty (conversation_sid task)) (worker_sid task)
                                       (worker_name task) (customer_address task)
                                       (customer_from task)
                               in if \<not> truthy workerIdentity then w1
                                  else (let (ok, w2) =
                                              sendConversationMessage e w1
                                                (or_empty (conversation_sid task))
                                                (stillInChatMessage (customerNameOrDefault task))
                                                workerIdentity
                                        in if \<not> ok then w2
                                           else w2\<lparr> flex_tasks :=
                                                     flex_markPingSent (flex_tasks w2) taskSid
                                                       now now \<rparr>))))))"

definition sendFlexInactiveAndClose :: "env \<Rightarrow> world \<Rightarrow> string \<Rightarrow> date \<Rightarrow> world" where
  "sendFlexInactiveAndClose e w taskSid now =
     (case findByTaskSid (flex_tasks w) taskSid of
        None \<Rightarrow> w
      | Some task \<Rightarrow>
          (case flex_greeting_sent_at task of
             None \<Rightarrow> w
           | Some greetingSentAt \<Rightarrow>
               (if flex_inactive_sent_at task \<noteq> None then w
                else if \<not> truthy (conversation_sid task) then w
                else if later_than (flex_last_customer_activity_at task) greetingSentAt then w
                else (let (client, w1) = getTwilioClient e w
                      in if \<not> client then w1
                         else (let workerIdentity =
                                     resolveWorkerParticipantIdentity e
                                       (or_empty (conversation_sid task)) (worker_sid task)
                                       (worker_name task) (customer_address task)
                                       (customer_from task)
                               in if \<not> truthy workerIdentity then w1
                                  else (let (ok, w2) =
                                              sendConversationMessage e w1
                                                (or_empty (conversation_sid task))
                                                (inactivityCloseMessage
                                                   (customerNameOrDefault task))
                                                workerIdentity
                                        in if \<not> ok then w2
                                           else (let w3 = w2\<lparr> flex_tasks :=
                                                               flex_markInactiveSent
                                                                 (flex_tasks w2) taskSid now
                                                                 now \<rparr>;
                                                     w4 = (if TASKS_FLEX_CLOSE_CONVERSATION e
                                                              \<noteq> Some ''false''
                                                           then closeConversation e w3
                                                                  (or_empty
                                                                     (conversation_sid task))
                                                           else w3);
                                                     (err, w5) =
                                                       (if TASKS_FLEX_COMPLETE_TASK e
                                                           \<noteq> Some ''false''
                                                        then completeTaskRouterTask e w4 taskSid
                                                        else (None, w4))
                                                 in if err \<noteq> None then w5
                                                    else w5\<lparr> sched := cancel (sched w5)
                                                                        taskSid \<rparr>)))))))"

section \<open>Runs of the service\<close>

text \<open>
  What can happen to the service: a call of one of its methods by the HTTP layer, a tick
  of the worker, or a timer firing its callback. A run starts from empty tables and an
  empty scheduler and applies such events one after the other, each with the provider
  and the environment of its moment and with a clock reading that is not earlier than the
  one before. Any callback may fire at any time: the runs include those the scheduler
  allows.
\<close>

datatype event =
    EvCreate string string string
  | EvAssign string string string
  | EvStartOperatorHandoff string string string "bool option"
  | EvRegisterOperatorGreeting string
  | EvMarkCustomerActivity string
  | EvMarkCustomerActivityByContact string
  | EvMarkFlexCustomerActivity string "string option"
  | EvTick
  | EvFire callback

fun fire :: "env \<Rightarrow> date \<Rightarrow> callback \<Rightarrow> world \<Rightarrow> world" where
  "fire e now (InternalPing taskId) w = sendInternalPingIfInactive e w taskId now"
| "fire e now (InternalInactive taskId) w = sendInternalInactiveAndClose e w taskId now"
| "fire e now (FlexPing taskSid) w = sendFlexPingIfInactive e w taskSid now"
| "fire e now (FlexInactive taskSid) w = sendFlexInactiveAndClose e w taskSid now"

fun apply_event :: "env \<Rightarrow> date \<Rightarrow> event \<Rightarrow> world \<Rightarrow> world" where
  "apply_event e now (EvCreate new_id customerName customerContact) w =
     w\<lparr> tasks := snd (create (tasks w) new_id customerName customerContact now) \<rparr>"
| "apply_event e now (EvAssign taskId operatorId operatorName) w =
     snd (assign w taskId operatorId operatorName now)"
| "apply_event e now (EvStartOperatorHandoff taskId operatorId operatorName sendGreeting) w =
     snd (startOperatorHandoff e w taskId operatorId operatorName sendGreeting now)"
| "apply_event e now (EvRegisterOperatorGreeting taskId) w =
     snd (registerOperatorGreeting w taskId now)"
| "apply_event e now (EvMarkCustomerActivity taskId) w =
     snd (markCustomerActivity w taskId now)"
| "apply_event e now (EvMarkCustomerActivityByContact customerContact) w =
     markCustomerActivityByContact w customerContact now"
| "apply_event e now (EvMarkFlexCustomerActivity conversationSid author) w =
     markFlexCustomerActivityByConversationSid e w conversationSid author now"
| "apply_event e now EvTick w = tick e w now"
| "apply_event e now (EvFire cb) w = fire e now cb w"

definition initial_world :: world where
  "initial_world = world_example []"




definition attributes_example :: string where
  "attributes_example =
     ''{'' @ [CHR 0x22] @ ''conversationSid'' @ [CHR 0x22] @ '':'' @ [CHR 0x22] @ ''CH1'' @
     [CHR 0x22] @ '','' @ [CHR 0x22] @ ''from'' @ [CHR 0x22] @ '':'' @ [CHR 0x22] @ ''+5501'' @
     [CHR 0x22] @ ''}''"

definition env_flex :: env where
  "env_flex =
     env_example
       \<lparr> TASKS_AUTO_SOURCE := Some ''flex'',
         json_parse := (\<lambda>s. if s = attributes_example
                             then Some (JObject [(''conversationSid'', JString ''CH1''),
                                                 (''from'', JString ''+5501'')])
                             else None),
         tasks_list := (\<lambda>ws limit.
            Inr [\<lparr> pt_sid = ''WT1'', pt_attributes = attributes_example,
                   pt_assignmentStatus = ''assigned'' \<rparr>]),
         reservations_list := (\<lambda>ws t.
            Inr [\<lparr> res_workerName = Some ''Bia'', res_workerSid = Some ''WK1'' \<rparr>]),
         participants_list := (\<lambda>c.
            Inr [\<lparr> p_identity = None, p_attributes = None,
                    p_bindingAddress = Some ''+5501'' \<rparr>,
                 \<lparr> p_identity = Some ''WK1'', p_attributes = None,
                    p_bindingAddress = None \<rparr>]) \<rparr>"

definition env_internal :: env where
  "env_internal = env_example\<lparr> TASKS_AUTO_SOURCE := Some ''internal'' \<rparr>"


definition run_same_ms :: world where
  "run_same_ms =
     apply_event env_internal 2000 EvTick
       (apply_event env_internal 1000 (EvMarkCustomerActivity ''t1'')
          (apply_event env_internal 1000 (EvRegisterOperatorGreeting ''t1'')
             (apply_event env_internal 200 (EvAssign ''t1'' ''O1'' ''Bia'')
                (apply_event env_internal 100 (EvCreate ''t1'' ''Ana'' ''+5501'')
                   initial_world))))"

definition run_early_activity :: world where
  "run_early_activity =
     apply_event env_internal 1000 (EvRegisterOperatorGreeting ''t1'')
       (apply_event env_internal 500 (EvMarkCustomerActivity ''t1'')
          (apply_event env_internal 200 (EvAssign ''t1'' ''O1'' ''Bia'')
             (apply_event env_internal 100 (EvCreate ''t1'' ''Ana'' ''+5501'')
                initial_world)))"

section \<open>Auxiliary notions for a repeated flex poll\<close>

text \<open>
  The name \<open>resolveWorkerDisplayName\<close> falls back to, and two relations on the
  worker-name cache: every cached name is trimmed, as the names the service stores are;
  and a later state keeps every usable entry of an earlier one.
\<close>

definition resolve_fallback :: "string \<Rightarrow> string" where
  "resolve_fallback fb = (if trim fb \<noteq> [] then trim fb else ''Atendente'')"

definition cache_ok :: "world \<Rightarrow> bool" where
  "cache_ok w = (\<forall>k v. workerNameCache w k = Some v \<longrightarrow> trim v = v)"

definition cache_ext :: "world \<Rightarrow> world \<Rightarrow> bool" where
  "cache_ext w w' =
     (\<forall>k. truthy (workerNameCache w k) \<longrightarrow> workerNameCache w' k = workerNameCache w k)"

text \<open>
  A worker name \<open>N\<close> stored in a row is stable when the next poll chooses it again:
  either the row's name is kept as it is (no worker sid, or a name other than the default
  and the reservation's), or the lookup of the worker gives \<open>N\<close> again, from the
  fallback or from the cache.
\<close>

definition name_stable :: "world \<Rightarrow> string option \<Rightarrow> string \<Rightarrow> string \<Rightarrow> bool" where
  "name_stable w wsid fb N =
     (trim N = N \<and> N \<noteq> [] \<and>
      (\<not> truthy wsid \<or> (N \<noteq> ''Atendente'' \<and> N \<noteq> fb) \<or>
       (trim (or_empty wsid) = [] \<and> N = resolve_fallback fb) \<or>
       (trim (or_empty wsid) \<noteq> [] \<and> workerNameCache w (or_empty wsid) = Some N)))"

text \<open>
  The author \<open>sendConversationMessage\<close> writes with, and the condition under which
  the greeting of a poll is not recorded: no worker participant is found, or the provider
  refuses the message.
\<close>

definition greeting_author :: "env \<Rightarrow> string option \<Rightarrow> string" where
  "greeting_author e ident =
     (if truthy (map_option trim ident) then or_empty (map_option trim ident)
      else getAutomationAuthor e)"

definition greeting_blocked ::
  "env \<Rightarrow> string \<Rightarrow> string option \<Rightarrow> string \<Rightarrow> string \<Rightarrow> string option \<Rightarrow> string option \<Rightarrow>
   bool" where
  "greeting_blocked e conv wsid N cname addr from =
     (\<not> truthy (resolveWorkerParticipantIdentity e conv wsid (Some N) addr from) \<or>
      \<not> message_create e conv
          (greeting_author e (resolveWorkerParticipantIdentity e conv wsid (Some N) addr from))
          (operatorHandoffMessage cname N))"

text \<open>
  A row agrees with the input of \<open>upsertBaseState\<close> on every field the upsert writes
  from its input. A listed task is settled in a state when its row exists and agrees with
  what a poll would write for it, with a stable worker name, and the greeting is either
  recorded or cannot be recorded.
\<close>

definition base_matches :: "FlexTaskState \<Rightarrow> upsert_input \<Rightarrow> bool" where
  "base_matches row inp =
     (conversation_sid row = in_conversationSid inp \<and> channel_type row = in_channelType inp \<and>
      flex_customer_name row = in_customerName inp \<and>
      customer_address row = in_customerAddress inp \<and>
      customer_from row = in_customerFrom inp \<and> worker_sid row = in_workerSid inp \<and>
      worker_name row = in_workerName inp \<and>
      task_assignment_status row = in_assignmentStatus inp \<and>
      task_attributes row = in_taskAttributes inp)"

definition settled ::
  "env \<Rightarrow> world \<Rightarrow> provider_task \<Rightarrow> json \<Rightarrow> string \<Rightarrow> reservation \<Rightarrow> bool" where
  "settled e w t attrs conv r =
     (\<exists>row N. map_of (flex_tasks w) (pt_sid t) = Some row \<and>
        name_stable w (workerSidOf r) (fallbackWorkerNameOf r) N \<and>
        base_matches row (baseStateInput t attrs conv r N) \<and>
        flex_created_at row \<noteq> None \<and>
        (flex_greeting_sent_at row \<noteq> None \<or>
         greeting_blocked e conv (workerSidOf r) N (pickCustomerName attrs)
           (string_of (field attrs ''customerAddress'')) (string_of (field attrs ''from''))))"

text \<open>
  The write of \<open>upsertBaseState\<close> to the lookup table by conversation.
\<close>

definition lookup_step ::
  "string \<Rightarrow> string \<Rightarrow> (string \<times> string) list \<Rightarrow> (string \<times> string) list" where
  "lookup_step conv sid lookup = (if conv \<noteq> [] then AList.update conv sid lookup else lookup)"

text \<open>
  What \<open>processFlexTask\<close> finds for a listed task before it writes: an error, nothing
  to do, or the attributes, the conversation and the first accepted reservation it then
  works with.
\<close>

definition listed ::
  "env \<Rightarrow> string \<Rightarrow> provider_task \<Rightarrow> error + (json \<times> string \<times> reservation) option" where
  "listed e ws t =
     (let attrs = parseTaskAttributes e (pt_attributes t)
      in case get_prop attrs ''conversationSid'' of
           Inl err \<Rightarrow> Inl err
         | Inr c \<Rightarrow>
             (case string_of c of
                None \<Rightarrow> Inr None
              | Some conv \<Rightarrow>
                  (if \<not> startsWith conv ''CH'' then Inr None
                   else (case reservations_list e ws (pt_sid t) of
                           Inl err \<Rightarrow> Inl err
                         | Inr [] \<Rightarrow> Inr None
                         | Inr (r # rest) \<Rightarrow> Inr (Some (attrs, conv, r))))))"

definition settled_task :: "env \<Rightarrow> string \<Rightarrow> world \<Rightarrow> provider_task \<Rightarrow> bool" where
  "settled_task e ws w t =
     (case listed e ws t of
        Inr (Some (attrs, conv, r)) \<Rightarrow> settled e w t attrs conv r
      | _ \<Rightarrow> True)"

definition lookup_of ::
  "env \<Rightarrow> string \<Rightarrow> (string \<times> string) list \<Rightarrow> provider_task \<Rightarrow> (string \<times> string) list" where
  "lookup_of e ws l t =
     (case listed e ws t of
        Inr (Some (attrs, conv, r)) \<Rightarrow> lookup_step conv (pt_sid t) l
      | _ \<Rightarrow> l)"

definition lookup_writes :: "env \<Rightarrow> string \<Rightarrow> provider_task list \<Rightarrow> (string \<times> string) list" where
  "lookup_writes e ws ts =
     concat (map (\<lambda>t. case listed e ws t of
                         Inr (Some (attrs, conv, r)) \<Rightarrow>
                           (if conv \<noteq> [] then [(conv, pt_sid t)] else [])
                       | _ \<Rightarrow> []) ts)"

text \<open>
  The provider lists every task once.
\<close>

definition listing_distinct :: "env \<Rightarrow> bool" where
  "listing_distinct e =
     (\<forall>ws limit ts. tasks_list e ws limit = Inr ts \<longrightarrow> distinct (map pt_sid ts))"

text \<open>
  The persistence state with the column \<open>updated_at\<close> of the flex table left out.
\<close>

definition erase_row :: "FlexTaskState \<Rightarrow> FlexTaskState" where
  "erase_row r = r\<lparr> flex_updated_at := 0 \<rparr>"

definition erase_updated :: "flex_table \<Rightarrow> flex_table" where
  "erase_updated tbl = map (\<lambda>(k, r). (k, erase_row r)) tbl"

definition persistence_modulo_updated_at ::
  "world \<Rightarrow> tasks_table \<times> flex_table \<times> (string \<times> string) list" where
  "persistence_modulo_updated_at w =
     (tasks w, erase_updated (flex_tasks w), flex_tasks_by_conversation w)"

chapter \<open>Verified properties\<close>

section \<open>The scheduler\<close>








section \<open>Repository writes\<close>

text \<open>
  C5. \<open>setGreetingSent\<close> writes \<open>greeting_sent_at\<close> and, in the same write, null into
  \<open>ping_sent_at\<close> and \<open>inactive_sent_at\<close>: on an existing internal task the row read
  back has the new greeting stamp and no ping or inactive mark, and so has the flex row
  after the flex repository's \<open>setGreetingSent\<close>, its other columns being those of the
  row that was there.
\<close>

theorem setGreetingSent_resets_epoch:
  "(findById tbl i = Some t \<longrightarrow>
      (\<exists>t'. setGreetingSent tbl i at now = (Some t', AList.update i t' tbl)
           \<and> findById (AList.update i t' tbl) i = Some t'
           \<and> t' = t\<lparr> greeting_sent_at := Some at, ping_sent_at := None,
                      inactive_sent_at := None, updated_at := now \<rparr>
           \<and> greeting_sent_at t' = Some at \<and> ping_sent_at t' = None
           \<and> inactive_sent_at t' = None))
   \<and> (\<exists>r. findByTaskSid (flex_setGreetingSent ftbl sid at now) sid = Some r
          \<and> flex_greeting_sent_at r = Some at \<and> flex_ping_sent_at r = None
          \<and> flex_inactive_sent_at r = None
          \<and> (\<forall>r0. findByTaskSid ftbl sid = Some r0 \<longrightarrow>
                r = r0\<lparr> flex_greeting_sent_at := Some at, flex_ping_sent_at := None,
                         flex_inactive_sent_at := None, flex_updated_at := now \<rparr>))"
  by (auto simp add: setGreetingSent_def findById_def findByTaskSid_def flex_setGreetingSent_def
      row_or_new_def update_conv' Let_def)

theorem setGreetingSent_resets_epoch_witness:
  "findById [(''t1'', task_example)] ''t1'' = Some task_example
   \<and> ping_sent_at task_example = Some 6000
   \<and> (\<exists>t'. setGreetingSent [(''t1'', task_example)] ''t1'' 50000 50001
              = (Some t', [(''t1'', t')])
          \<and> greeting_sent_at t' = Some 50000 \<and> ping_sent_at t' = None
          \<and> inactive_sent_at t' = None)
   \<and> findByTaskSid [(''WT1'', flex_example)] ''WT1'' = Some flex_example
   \<and> flex_ping_sent_at flex_example = Some 6000
   \<and> findByTaskSid (flex_setGreetingSent [(''WT1'', flex_example)] ''WT1'' 50000 50001) ''WT1''
       = Some (flex_example\<lparr> flex_greeting_sent_at := Some 50000, flex_ping_sent_at := None,
                             flex_inactive_sent_at := None, flex_updated_at := 50001 \<rparr>)"
proof -
  have h1: "findById [(''t1'', task_example)] ''t1'' = Some task_example"
    by (simp add: findById_def)
  have h2: "findByTaskSid [(''WT1'', flex_example)] ''WT1'' = Some flex_example"
    by (simp add: findByTaskSid_def)
  have p: "ping_sent_at task_example = Some 6000" "flex_ping_sent_at flex_example = Some 6000"
    by (simp_all add: task_example_def flex_example_def)
  show ?thesis
    using h1 h2 p
      setGreetingSent_resets_epoch [of "[(''t1'', task_example)]" "''t1''" task_example
        50000 50001 "[(''WT1'', flex_example)]" "''WT1''"]
    by auto
qed

text \<open>
  C9. On an existing task \<open>assign\<close> stores the operator, the status \<open>assigned\<close> and
  \<open>updated_at\<close>, and sets \<open>assigned_at\<close> to the clock reading only when the task had
  none: an \<open>assigned_at\<close> that is set is kept. \<open>startOperatorHandoff\<close> leaves the row
  with the same \<open>assigned_at\<close>, the new operator and the status \<open>assigned\<close>, whether
  its greeting is sent or not.
\<close>

theorem assign_keeps_assigned_at:
  assumes "findById (tasks w) i = Some t"
  shows "\<exists>t'. assign w i operatorId operatorName now
                 = (Inr t', w\<lparr> tasks := AList.update i t' (tasks w) \<rparr>)
             \<and> assigned_at t' = (case assigned_at t of None \<Rightarrow> Some now | Some a \<Rightarrow> Some a)
             \<and> operator_id t' = Some operatorId \<and> operator_name t' = Some operatorName
             \<and> status t' = StAssigned \<and> updated_at t' = now
             \<and> (\<forall>e sg r w'.
                   startOperatorHandoff e w i operatorId operatorName sg now = (r, w') \<longrightarrow>
                   (\<exists>t''. findById (tasks w') i = Some t''
                        \<and> assigned_at t'' = assigned_at t'
                        \<and> operator_id t'' = Some operatorId
                        \<and> operator_name t'' = Some operatorName
                        \<and> status t'' = StAssigned \<and> updated_at t'' = now))"
  using assms
  by (auto simp add: assign_def assignToOperator_def startOperatorHandoff_def findById_def
      setGreetingSent_def sendSMS_def scheduleInternalInactivityTimers_def
      update_conv' Let_def split: option.splits prod.splits if_splits)

theorem assign_keeps_assigned_at_witness:
  "findById (tasks (world_example [(''t1'', task_example)])) ''t1'' = Some task_example
   \<and> assigned_at task_example = Some 200
   \<and> (\<exists>t'. assign (world_example [(''t1'', task_example)]) ''t1'' ''O2'' ''Caio'' 9000
              = (Inr t', world_example [(''t1'', t')])
          \<and> assigned_at t' = Some 200 \<and> operator_id t' = Some ''O2''
          \<and> operator_name t' = Some ''Caio'' \<and> status t' = StAssigned
          \<and> updated_at t' = 9000
          \<and> (\<exists>t''. findById (tasks (snd (startOperatorHandoff env_example
                        (world_example [(''t1'', task_example)]) ''t1'' ''O2'' ''Caio'' None 9000)))
                      ''t1'' = Some t''
                 \<and> assigned_at t'' = Some 200 \<and> operator_id t'' = Some ''O2''))"
proof -
  have h: "findById (tasks (world_example [(''t1'', task_example)])) ''t1'' = Some task_example"
    by (simp add: findById_def world_example_def)
  have a: "assigned_at task_example = Some 200"
    by (simp add: task_example_def)
  obtain r w' where s: "startOperatorHandoff env_example
      (world_example [(''t1'', task_example)]) ''t1'' ''O2'' ''Caio'' None 9000 = (r, w')"
    by (cases "startOperatorHandoff env_example
      (world_example [(''t1'', task_example)]) ''t1'' ''O2'' ''Caio'' None 9000") blast
  show ?thesis
    using h a s assign_keeps_assigned_at [OF h, of "''O2''" "''Caio''" 9000]
    by (fastforce simp add: world_example_def)
qed



section \<open>The timer callbacks of internal tasks\<close>

text \<open>
  C6 (as amended). When the task's status is not \<open>assigned\<close>, or it has no greeting
  stamp, or its ping mark is set, or its last customer activity is later than the greeting
  stamp, the ping callback leaves the whole state as it is: no SMS request and no write.
  In particular, after \<open>markCustomerActivity\<close> at a clock reading strictly later than the
  task's greeting stamp the ping callback does nothing.
\<close>

theorem ping_callback_guard:
  "(\<forall>t. findById (tasks w) i = Some t \<longrightarrow>
        (status t \<noteq> StAssigned \<or> greeting_sent_at t = None \<or> ping_sent_at t \<noteq> None \<or>
         (\<exists>g a. greeting_sent_at t = Some g \<and> last_customer_activity_at t = Some a \<and> a > g)) \<longrightarrow>
        sendInternalPingIfInactive e w i now = w)
   \<and> ((\<forall>t g. findById (tasks w) i = Some t \<longrightarrow> greeting_sent_at t = Some g \<longrightarrow> g < at) \<longrightarrow>
        sendInternalPingIfInactive e (snd (markCustomerActivity w i at)) i now
          = snd (markCustomerActivity w i at))"
  by (auto simp add: sendInternalPingIfInactive_def markCustomerActivity_def
      markCustomerActivity_repo_def findById_def later_than_def update_conv' Let_def
      split: option.splits prod.splits)

theorem ping_callback_guard_witness:
  "findById (tasks (world_example [(''t1'', greeted_example)])) ''t1'' = Some greeted_example
   \<and> greeting_sent_at greeted_example = Some 1000 \<and> (1000 :: int) < 3000
   \<and> sendInternalPingIfInactive env_example
        (snd (markCustomerActivity (world_example [(''t1'', greeted_example)]) ''t1'' 3000))
        ''t1'' 6000
       = snd (markCustomerActivity (world_example [(''t1'', greeted_example)]) ''t1'' 3000)
   \<and> findById (tasks (world_example [(''t1'', task_example)])) ''t1'' = Some task_example
   \<and> ping_sent_at task_example = Some 6000
   \<and> sendInternalPingIfInactive env_example (world_example [(''t1'', task_example)]) ''t1'' 6000
       = world_example [(''t1'', task_example)]"
proof -
  have h: "findById (tasks (world_example [(''t1'', greeted_example)])) ''t1''
             = Some greeted_example"
    "findById (tasks (world_example [(''t1'', task_example)])) ''t1'' = Some task_example"
    by (simp_all add: findById_def world_example_def)
  have g: "greeting_sent_at greeted_example = Some 1000" "ping_sent_at task_example = Some 6000"
    by (simp_all add: greeted_example_def task_example_def)
  show ?thesis
    using h g
      ping_callback_guard [of "world_example [(''t1'', greeted_example)]" "''t1''" env_example
        6000 3000]
      ping_callback_guard [of "world_example [(''t1'', task_example)]" "''t1''" env_example
        6000 3000]
    by simp
qed

text \<open>
  C6 as stated fails: the guard is the strict comparison
  \<open>last_customer_activity_at > greeting_sent_at\<close>, per greeting epoch. In the first run
  the activity is recorded in the millisecond of the greeting; the next tick finds no
  later activity and arms the timers again, and the ping deadline, when it fires, sends
  the ping. In the second run the customer's activity precedes the greeting that arms the
  timers, and the ping is sent as well.
\<close>

theorem ping_after_activity_counterexample:
  "map_option greeting_sent_at (findById (tasks run_same_ms) ''t1'') = Some (Some 1000)
   \<and> map_option last_customer_activity_at (findById (tasks run_same_ms) ''t1'')
       = Some (Some 1000)
   \<and> armed (sched run_same_ms) 2 = Some (4000, InternalPing ''t1'')
   \<and> sms_log run_same_ms = []
   \<and> sms_log (apply_event env_internal 6000 (EvFire (InternalPing ''t1'')) run_same_ms)
       = [(''+5501'', stillInChatMessage ''Ana'')]
   \<and> map_option last_customer_activity_at (findById (tasks run_early_activity) ''t1'')
       = Some (Some 500)
   \<and> armed (sched run_early_activity) 0 = Some (5000, InternalPing ''t1'')
   \<and> sms_log run_early_activity = []
   \<and> sms_log (apply_event env_internal 6000 (EvFire (InternalPing ''t1''))
        run_early_activity)
       = [(''+5501'', stillInChatMessage ''Ana'')]"
  by code_simp


section \<open>Customer activity on flex tasks\<close>





section \<open>Worker-participant identity resolution\<close>




lemma props_null: "ks \<noteq> [] \<Longrightarrow> props JNull ks = Inl TypeError"
  by (cases ks) simp_all











section \<open>The reconciliation tick\<close>

lemma getTwilioClient_frame:
  "getTwilioClient e w = (c, w1) \<Longrightarrow>
     persistence w1 = persistence w \<and> sched w1 = sched w \<and> sms_log w1 = sms_log w \<and>
     message_log w1 = message_log w"
  by (auto simp add: getTwilioClient_def persistence_def split: if_splits)

lemma resolveWorkspaceSid_frame:
  "resolveWorkspaceSid e w = (r, w1) \<Longrightarrow>
     persistence w1 = persistence w \<and> sched w1 = sched w \<and> sms_log w1 = sms_log w \<and>
     message_log w1 = message_log w"
  by (auto simp add: resolveWorkspaceSid_def adopt_workspace_def persistence_def
      split: if_splits sum.splits list.splits)




subsection \<open>Two consecutive ticks\<close>

lemma scheduleInternal_frame:
  "tasks (scheduleInternalInactivityTimers w t now) = tasks w"
  "flex_tasks (scheduleInternalInactivityTimers w t now) = flex_tasks w"
  "flex_tasks_by_conversation (scheduleInternalInactivityTimers w t now)
     = flex_tasks_by_conversation w"
  by (simp_all add: scheduleInternalInactivityTimers_def split: option.splits)

lemma processInternalTask_tasks:
  "tasks (processInternalTask e now w t) = greet_tbl e now (tasks w) t"
  by (auto simp add: processInternalTask_def greet_tbl_def needs_greeting_def sendSMS_def
      scheduleInternal_frame Let_def split: option.splits prod.splits)

lemma processInternalTask_flex:
  "flex_tasks (processInternalTask e now w t) = flex_tasks w"
  "flex_tasks_by_conversation (processInternalTask e now w t) = flex_tasks_by_conversation w"
  by (auto simp add: processInternalTask_def sendSMS_def scheduleInternal_frame Let_def
      split: option.splits prod.splits)

lemma foldl_internal_tasks:
  "tasks (foldl (processInternalTask e now) w ts) = foldl (greet_tbl e now) (tasks w) ts"
  by (induction ts arbitrary: w) (simp_all add: processInternalTask_tasks)

lemma foldl_internal_flex:
  "flex_tasks (foldl (processInternalTask e now) w ts) = flex_tasks w"
  "flex_tasks_by_conversation (foldl (processInternalTask e now) w ts)
     = flex_tasks_by_conversation w"
  by (induction ts arbitrary: w) (simp_all add: processInternalTask_flex)

lemma foldl_greet_nothing:
  "\<forall>t \<in> set ts. \<not> needs_greeting e t \<Longrightarrow> foldl (greet_tbl e now) tbl ts = tbl"
  by (induction ts arbitrary: tbl) (simp_all add: greet_tbl_def)

lemma greeted_idem: "greeted now (greeted now r) = greeted now r"
  by (simp add: greeted_def)

lemma map_of_greet_keys:
  "map_of (greet_keys G now tbl) k
     = map_option (\<lambda>r. if k \<in> G then greeted now r else r) (map_of tbl k)"
  by (induction tbl) (auto simp add: greet_keys_def)

lemma greet_keys_insert_absent:
  "k \<notin> fst ` set tbl \<Longrightarrow> greet_keys (insert k G) now tbl = greet_keys G now tbl"
  by (induction tbl) (auto simp add: greet_keys_def)

lemma update_greet_keys:
  "distinct (map fst tbl) \<Longrightarrow> map_of tbl k = Some r \<Longrightarrow>
   AList.update k (greeted now r) (greet_keys G now tbl) = greet_keys (insert k G) now tbl"
proof (induction tbl)
  case Nil
  then show ?case by simp
next
  case (Cons p tbl)
  obtain k' r' where p: "p = (k', r')" by (cases p)
  show ?case
  proof (cases "k' = k")
    case True
    then have "r' = r" using Cons.prems p by simp
    moreover have "k \<notin> fst ` set tbl" using Cons.prems True p by auto
    then have "greet_keys (insert k G) now tbl = greet_keys G now tbl"
      by (rule greet_keys_insert_absent)
    ultimately show ?thesis using True p by (simp add: greet_keys_def)
  next
    case False
    then have "map_of tbl k = Some r" using Cons.prems p by simp
    moreover have "distinct (map fst tbl)" using Cons.prems by simp
    ultimately have "AList.update k (greeted now r) (greet_keys G now tbl)
        = greet_keys (insert k G) now tbl"
      by (rule Cons.IH [rotated])
    then show ?thesis using False p by (simp add: greet_keys_def)
  qed
qed

lemma setGreetingSent_greet_keys:
  assumes "distinct (map fst tbl)" and "map_of tbl k = Some r"
  shows "snd (setGreetingSent (greet_keys G now tbl) k now now) = greet_keys (insert k G) now tbl"
proof -
  have "AList.update k (greeted now (if k \<in> G then greeted now r else r)) (greet_keys G now tbl)
          = greet_keys (insert k G) now tbl"
    using update_greet_keys [OF assms] by (simp add: greeted_idem)
  then show ?thesis
    using assms(2)
    by (simp add: setGreetingSent_def findById_def map_of_greet_keys Let_def greeted_def)
qed

lemma foldl_greet_keys:
  assumes "distinct (map fst tbl)"
    and "\<forall>t \<in> set ts. map_of tbl (task_id t) \<noteq> None"
  shows "foldl (greet_tbl e now) (greet_keys G now tbl) ts
           = greet_keys (G \<union> {task_id t | t. t \<in> set ts \<and> needs_greeting e t}) now tbl"
  using assms(2)
proof (induction ts arbitrary: G)
  case Nil
  then show ?case by simp
next
  case (Cons t ts)
  obtain r where r: "map_of tbl (task_id t) = Some r" using Cons.prems by auto
  have step: "greet_tbl e now (greet_keys G now tbl) t
      = greet_keys (if needs_greeting e t then insert (task_id t) G else G) now tbl"
    using setGreetingSent_greet_keys [OF assms(1) r] by (simp add: greet_tbl_def)
  have rest: "\<forall>t \<in> set ts. map_of tbl (task_id t) \<noteq> None" using Cons.prems by simp
  have sets: "(if needs_greeting e t then insert (task_id t) G else G)
        \<union> {task_id u | u. u \<in> set ts \<and> needs_greeting e u}
      = G \<union> {task_id u | u. u \<in> set (t # ts) \<and> needs_greeting e u}"
    by auto
  show ?case
    using Cons.IH [OF rest, of "if needs_greeting e t then insert (task_id t) G else G"]
    by (simp only: foldl_Cons step sets)
qed

lemma greet_keys_empty: "greet_keys {} now tbl = tbl"
  by (induction tbl) (auto simp add: greet_keys_def)

lemma findByStatus_greet_keys:
  assumes "list_all (\<lambda>(k, r). task_id r = k) tbl"
  shows "findByStatus (greet_keys G now tbl) st lim
           = map (\<lambda>r. if task_id r \<in> G then greeted now r else r) (findByStatus tbl st lim)"
proof -
  have 1: "map snd (greet_keys G now tbl)
             = map (\<lambda>r. if task_id r \<in> G then greeted now r else r) (map snd tbl)"
    using assms by (induction tbl) (auto simp add: greet_keys_def)
  have 2: "\<And>xs. filter (\<lambda>t. status t = st)
                   (map (\<lambda>r. if task_id r \<in> G then greeted now r else r) xs)
             = map (\<lambda>r. if task_id r \<in> G then greeted now r else r)
                 (filter (\<lambda>t. status t = st) xs)"
    by (simp add: filter_map comp_def greeted_def if_distrib [of status] cong: if_cong)
  show ?thesis
    by (simp only: findByStatus_def 1 2 take_map)
qed

lemma findByStatus_rows:
  assumes "table_ok tbl" and "t \<in> set (findByStatus tbl st lim)"
  shows "map_of tbl (task_id t) = Some t"
proof -
  from assms(2) have "t \<in> snd ` set tbl"
    by (auto simp add: findByStatus_def dest!: in_set_takeD)
  then obtain k where m: "(k, t) \<in> set tbl" by auto
  with assms(1) have "task_id t = k"
    by (auto simp add: table_ok_def list_all_iff)
  with m assms(1) show ?thesis
    by (simp add: table_ok_def)
qed

lemma internal_tasks_after:
  assumes "table_ok (tasks w)"
  shows "tasks (autoProcessInternalAssignedTasks e w now)
    = greet_keys {task_id t | t. t \<in> set (findByStatus (tasks w) StAssigned
                      (number_or (TASKS_AUTO_BATCH_SIZE e) 100)) \<and> needs_greeting e t}
        now (tasks w)"
proof -
  let ?L = "findByStatus (tasks w) StAssigned (number_or (TASKS_AUTO_BATCH_SIZE e) 100)"
  have d: "distinct (map fst (tasks w))" using assms by (simp add: table_ok_def)
  have ex: "\<forall>t \<in> set ?L. map_of (tasks w) (task_id t) \<noteq> None"
    using findByStatus_rows [OF assms] by auto
  show ?thesis
    using foldl_greet_keys [OF d ex, of e now "{}"]
    by (simp add: autoProcessInternalAssignedTasks_def Let_def foldl_internal_tasks
        greet_keys_empty)
qed

lemma internal_second_run:
  assumes "table_ok (tasks w)"
    and "tasks w' = tasks (autoProcessInternalAssignedTasks e w now1)"
  shows "tasks (autoProcessInternalAssignedTasks e w' now2) = tasks w'"
proof -
  let ?L = "findByStatus (tasks w) StAssigned (number_or (TASKS_AUTO_BATCH_SIZE e) 100)"
  let ?G = "{task_id t | t. t \<in> set ?L \<and> needs_greeting e t}"
  have ok: "list_all (\<lambda>(k, r). task_id r = k) (tasks w)"
    using assms(1) by (simp add: table_ok_def)
  have t1: "tasks w' = greet_keys ?G now1 (tasks w)"
    using assms(2) internal_tasks_after [OF assms(1)] by simp
  have L': "findByStatus (tasks w') StAssigned (number_or (TASKS_AUTO_BATCH_SIZE e) 100)
      = map (\<lambda>r. if task_id r \<in> ?G then greeted now1 r else r) ?L"
    by (simp only: t1 findByStatus_greet_keys [OF ok])
  have none: "\<forall>t \<in> set (map (\<lambda>r. if task_id r \<in> ?G then greeted now1 r else r) ?L).
      \<not> needs_greeting e t"
  proof
    fix t'
    assume "t' \<in> set (map (\<lambda>r. if task_id r \<in> ?G then greeted now1 r else r) ?L)"
    then have "t' \<in> (\<lambda>r. if task_id r \<in> ?G then greeted now1 r else r) ` set ?L"
      by (simp only: set_map)
    then obtain t where t: "t \<in> set ?L"
      and t': "t' = (if task_id t \<in> ?G then greeted now1 t else t)"
      by (rule imageE)
    show "\<not> needs_greeting e t'"
    proof (cases "task_id t \<in> ?G")
      case True
      then show ?thesis using t' by (simp add: needs_greeting_def greeted_def)
    next
      case False
      then have "\<not> needs_greeting e t" using t by auto
      moreover have "t' = t" using t' False by (simp only: if_False)
      ultimately show ?thesis by simp
    qed
  qed
  show ?thesis
    by (simp only: autoProcessInternalAssignedTasks_def Let_def foldl_internal_tasks L'
        foldl_greet_nothing [OF none])
qed

lemma flex_false_frame:
  assumes "autoProcessFlexAssignedTasks e w now = (Inr False, w')"
  shows "persistence w' = persistence w"
proof -
  obtain c w1 where c: "getTwilioClient e w = (c, w1)" by (cases "getTwilioClient e w")
  obtain r w2 where r: "resolveWorkspaceSid e w1 = (r, w2)"
    by (cases "resolveWorkspaceSid e w1")
  have p1: "persistence w1 = persistence w" using getTwilioClient_frame [OF c] by simp
  have p2: "persistence w2 = persistence w1" using resolveWorkspaceSid_frame [OF r] by simp
  show ?thesis
    using assms c r p1 p2
    by (auto simp add: autoProcessFlexAssignedTasks_def Let_def
        split: if_splits sum.splits prod.splits option.splits)
qed

lemma internal_persistence:
  "persistence (autoProcessInternalAssignedTasks e w now)
     = (tasks (autoProcessInternalAssignedTasks e w now), flex_tasks w,
        flex_tasks_by_conversation w)"
  by (simp add: persistence_def autoProcessInternalAssignedTasks_def Let_def foldl_internal_flex)

lemma tick_runs_internal:
  assumes "runs_internal e w now"
  shows "\<exists>w0. persistence w0 = persistence w
            \<and> autoProcessAssignedTasks e w now
                = (None, autoProcessInternalAssignedTasks e w0 now)"
proof (cases "sourceMode e = ''internal''")
  case True
  then show ?thesis
    by (auto simp add: autoProcessAssignedTasks_def internalUnlessFlex_def)
next
  case False
  then have nf: "sourceMode e \<noteq> ''flex''"
    and f: "fst (autoProcessFlexAssignedTasks e w now) = Inr False"
    using assms by (auto simp add: runs_internal_def)
  obtain w' where w': "autoProcessFlexAssignedTasks e w now = (Inr False, w')"
    using f by (cases "autoProcessFlexAssignedTasks e w now") auto
  have "persistence w' = persistence w" by (rule flex_false_frame [OF w'])
  moreover have "autoProcessAssignedTasks e w now
      = (None, autoProcessInternalAssignedTasks e w' now)"
    using False nf w' by (simp add: autoProcessAssignedTasks_def internalUnlessFlex_def)
  ultimately show ?thesis by blast
qed

lemma upsertBaseState_marks:
  assumes "findByTaskSid tbl (in_taskSid inp) = Some r"
  shows "\<exists>r'. findByTaskSid (fst (upsertBaseState tbl lookup inp n)) (in_taskSid inp) = Some r'
            \<and> flex_updated_at r' = n
            \<and> flex_greeting_sent_at r' = flex_greeting_sent_at r
            \<and> flex_ping_sent_at r' = flex_ping_sent_at r
            \<and> flex_inactive_sent_at r' = flex_inactive_sent_at r
            \<and> flex_last_customer_activity_at r' = flex_last_customer_activity_at r"
  using assms
  by (simp add: upsertBaseState_def findByTaskSid_def row_or_new_def update_conv' Let_def)

section \<open>Task rows in the states the service reaches\<close>

subsection \<open>The flex operations leave the internal task table alone\<close>

















subsection \<open>The invariant of task rows\<close>





























section \<open>The flex pipeline polled twice\<close>

lemma trim_idem: "trim (trim s) = trim s"
proof -
  let ?P = js_whitespace
  let ?ys = "dropWhile ?P s"
  let ?zs = "dropWhile ?P (rev ?ys)"
  have t: "trim s = rev ?zs" by (simp add: trim_def)
  have "dropWhile ?P (rev ?zs) = rev ?zs"
  proof (cases "?zs = []")
    case True
    show ?thesis unfolding True by simp
  next
    case False
    have "rev ?ys = takeWhile ?P (rev ?ys) @ ?zs" by simp
    then have "?ys = rev ?zs @ rev (takeWhile ?P (rev ?ys))"
      by (metis rev_append rev_rev_ident)
    then have h: "hd ?ys = hd (rev ?zs)" using False by (metis hd_append2 rev_is_Nil_conv)
    have "?ys \<noteq> []"
    proof
      assume a: "?ys = []"
      have "?zs = []" unfolding a by simp
      with False show False by simp
    qed
    then have "\<not> ?P (hd ?ys)" by (rule hd_dropWhile)
    then have "\<not> ?P (hd (rev ?zs))" using h by simp
    then show ?thesis using False by (cases "rev ?zs") auto
  qed
  then have "trim (rev ?zs) = rev (dropWhile ?P ?zs)" by (simp add: trim_def)
  also have "\<dots> = rev ?zs" by (simp add: dropWhile_idem)
  finally show ?thesis using t by simp
qed

lemma trim_Atendente: "trim ''Atendente'' = ''Atendente''"
  by (simp add: trim_def js_whitespace_def)

lemma resolve_fallback_trimmed:
  "trim (resolve_fallback fb) = resolve_fallback fb" "resolve_fallback fb \<noteq> []"
  by (simp_all add: resolve_fallback_def trim_idem trim_Atendente)

lemma first_string_candidate_trimmed:
  "first_string_candidate cs = Some s \<Longrightarrow> trim s = s \<and> s \<noteq> []"
  by (induction cs rule: first_string_candidate.induct) (auto simp add: trim_idem split: if_splits)

lemma pickWorkerName_trimmed:
  "pickWorkerNameFromAttributes j = Inr (Some s) \<Longrightarrow> trim s = s \<and> s \<noteq> []"
  using first_string_candidate_trimmed
  by (auto simp add: pickWorkerNameFromAttributes_def split: sum.splits)

lemma resolveWorkerDisplayName_cases:
  assumes "cache_ok w" and "resolveWorkerDisplayName e w ws wsid fb = (N, w1)"
  shows "trim N = N \<and> N \<noteq> [] \<and> cache_ok w1 \<and> cache_ext w w1
       \<and> w1 = w\<lparr> workerNameCache := workerNameCache w1 \<rparr>
       \<and> (((\<not> truthy wsid \<or> trim (or_empty wsid) = []) \<and> N = resolve_fallback fb \<and> w1 = w)
          \<or> (truthy wsid \<and> trim (or_empty wsid) \<noteq> []
              \<and> workerNameCache w1 (or_empty wsid) = Some N))"
proof -
  let ?k = "or_empty wsid"
  let ?fb = "resolve_fallback fb"
  let ?G = ?thesis
  show ?thesis
  proof (cases "\<not> truthy wsid \<or> trim ?k = []")
    case True
    then show ?thesis
      using assms resolve_fallback_trimmed [of fb]
      by (auto simp add: resolveWorkerDisplayName_def Let_def resolve_fallback_def cache_ext_def)
  next
    case nb: False
    show ?thesis
    proof (cases "truthy (workerNameCache w ?k)")
      case True
      then obtain c where c: "workerNameCache w ?k = Some c" "c \<noteq> []"
        by (cases "workerNameCache w ?k") (auto simp add: truthy_def or_empty_def)
      then have "trim c = c" using assms(1) by (simp add: cache_ok_def)
      then show ?thesis
        using assms nb True c
        by (auto simp add: resolveWorkerDisplayName_def Let_def cache_ext_def or_empty_def)
    next
      case nc: False
      have set: "\<And>v. trim v = v \<Longrightarrow> v \<noteq> [] \<Longrightarrow>
          resolveWorkerDisplayName e w ws wsid fb
            = (v, w\<lparr> workerNameCache := (workerNameCache w)(?k \<mapsto> v) \<rparr>) \<Longrightarrow> ?G"
      proof -
        fix v
        assume v: "trim v = v" "v \<noteq> []"
          and r: "resolveWorkerDisplayName e w ws wsid fb
            = (v, w\<lparr> workerNameCache := (workerNameCache w)(?k \<mapsto> v) \<rparr>)"
        have "N = v" "w1 = w\<lparr> workerNameCache := (workerNameCache w)(?k \<mapsto> v) \<rparr>"
          using assms(2) unfolding r by auto
        moreover have "cache_ok (w\<lparr> workerNameCache := (workerNameCache w)(?k \<mapsto> v) \<rparr>)"
          using assms(1) v by (simp add: cache_ok_def)
        moreover have "cache_ext w (w\<lparr> workerNameCache := (workerNameCache w)(?k \<mapsto> v) \<rparr>)"
          using nc by (auto simp add: cache_ext_def)
        ultimately show ?G using v nb by simp
      qed
      show ?thesis
      proof (cases "worker_fetch e ws ?k")
        case (Inl err)
        show ?thesis
          by (rule set [of ?fb])
             (use nb nc Inl in \<open>simp_all add: trim_idem trim_Atendente
               resolveWorkerDisplayName_def Let_def resolve_fallback_def\<close>)
      next
        case (Inr wk)
        show ?thesis
        proof (cases "pickWorkerNameFromAttributes (parseAttributesOrEmpty e (wk_attributes wk))")
          case (Inl err)
          show ?thesis
            by (rule set [of ?fb])
               (use nb nc Inr Inl in \<open>simp_all add: trim_idem trim_Atendente
                 resolveWorkerDisplayName_def Let_def resolve_fallback_def\<close>)
        next
          case pr: (Inr fromAttrs)
          let ?res = "(if truthy fromAttrs then or_empty fromAttrs
                       else if trim (or_empty (wk_friendlyName wk)) \<noteq> []
                       then trim (or_empty (wk_friendlyName wk))
                       else ?fb)"
          have t: "trim ?res = ?res \<and> ?res \<noteq> []"
          proof (cases "truthy fromAttrs")
            case True
            then obtain s where "fromAttrs = Some s" by (cases fromAttrs) (auto simp: truthy_def or_empty_def)
            then show ?thesis
              using pickWorkerName_trimmed pr True by (auto simp add: or_empty_def)
          next
            case False
            then show ?thesis by (simp add: trim_idem resolve_fallback_trimmed)
          qed
          show ?thesis
            by (rule set [of ?res])
               (use nb nc Inr pr t in \<open>simp_all add: resolveWorkerDisplayName_def Let_def
                 resolve_fallback_def\<close>)
        qed
      qed
    qed
  qed
qed

lemma cache_ext_refl: "cache_ext w w"
  by (simp add: cache_ext_def)

lemma cache_ext_trans: "cache_ext a b \<Longrightarrow> cache_ext b c \<Longrightarrow> cache_ext a c"
  by (auto simp add: cache_ext_def)

lemma name_stable_ext:
  "name_stable w wsid fb N \<Longrightarrow> cache_ext w w' \<Longrightarrow> name_stable w' wsid fb N"
  by (auto simp add: name_stable_def cache_ext_def truthy_def or_empty_def)

lemma chooseWorkerName_stable:
  assumes "name_stable w wsid fb N" and "worker_name row = Some N"
  shows "chooseWorkerName e w ws wsid fb (Some row) = (N, w)"
proof -
  have n: "trim N = N" "N \<noteq> []" using assms(1) by (simp_all add: name_stable_def)
  have stored: "map_option trim (worker_name row) = Some N" "truthy (Some N)"
    "or_empty (Some N) = N"
    using assms(2) n by (simp_all add: truthy_def or_empty_def)
  show ?thesis
  proof (cases "truthy wsid \<and> (N = ''Atendente'' \<or> N = fb)")
    case False
    then show ?thesis by (auto simp add: chooseWorkerName_def Let_def stored)
  next
    case True
    then have c: "(trim (or_empty wsid) = [] \<and> N = resolve_fallback fb) \<or>
       (trim (or_empty wsid) \<noteq> [] \<and> workerNameCache w (or_empty wsid) = Some N)"
      using assms(1) by (auto simp add: name_stable_def)
    have "resolveWorkerDisplayName e w ws wsid fb = (N, w)"
      using c True n
      by (auto simp add: resolveWorkerDisplayName_def Let_def resolve_fallback_def truthy_def
          or_empty_def)
    then show ?thesis using True by (auto simp add: chooseWorkerName_def Let_def stored)
  qed
qed

lemma chooseWorkerName_result:
  assumes "cache_ok w" and "trim fb = fb" and "fb \<noteq> []"
    and "chooseWorkerName e w ws wsid fb ex = (N, w1)"
  shows "name_stable w1 wsid fb N \<and> cache_ok w1 \<and> cache_ext w w1
       \<and> w1 = w\<lparr> workerNameCache := workerNameCache w1 \<rparr>"
proof -
  let ?stored = "(case ex of None \<Rightarrow> None | Some st \<Rightarrow> map_option trim (worker_name st))"
  have via_resolve: "resolveWorkerDisplayName e w ws wsid fb = (N, w1) \<Longrightarrow> truthy wsid \<Longrightarrow>
      ?thesis"
  proof -
    assume r: "resolveWorkerDisplayName e w ws wsid fb = (N, w1)" and t: "truthy wsid"
    note c = resolveWorkerDisplayName_cases [OF assms(1) r]
    then have "name_stable w1 wsid fb N"
      using t by (auto simp add: name_stable_def)
    then show ?thesis using c by simp
  qed
  have same: "w = w\<lparr> workerNameCache := workerNameCache w \<rparr>" by simp
  show ?thesis
  proof (cases "truthy ?stored")
    case False
    show ?thesis
    proof (cases "truthy wsid")
      case True
      then show ?thesis
        using assms(4) False via_resolve by (simp add: chooseWorkerName_def Let_def)
    next
      case nt: False
      then have "N = fb" "w1 = w"
        using assms(4) False by (simp_all add: chooseWorkerName_def Let_def)
      then show ?thesis
        using assms(1,2,3) nt same by (simp add: name_stable_def cache_ext_refl)
    qed
  next
    case True
    then obtain x where x: "?stored = Some (trim x)" "trim x \<noteq> []"
      by (cases ex) (auto simp add: truthy_def or_empty_def split: option.splits)
    show ?thesis
    proof (cases "truthy wsid \<and> (trim x = ''Atendente'' \<or> trim x = fb)")
      case rs: True
      then have "resolveWorkerDisplayName e w ws wsid fb = (N, w1)"
        using assms(4) True x by (auto simp add: chooseWorkerName_def Let_def or_empty_def)
      then show ?thesis using via_resolve rs by simp
    next
      case False
      then have "N = trim x" "w1 = w"
        using assms(4) True x by (auto simp add: chooseWorkerName_def Let_def or_empty_def)
      then show ?thesis
        using assms(1) False x same
        by (auto simp add: name_stable_def cache_ext_refl trim_idem)
    qed
  qed
qed

lemma fallbackWorkerNameOf_trimmed:
  "trim (fallbackWorkerNameOf r) = fallbackWorkerNameOf r" "fallbackWorkerNameOf r \<noteq> []"
  by (simp_all add: fallbackWorkerNameOf_def trim_idem trim_Atendente)

lemma getTwilioClient_ready: "twilioClient w \<Longrightarrow> getTwilioClient e w = (True, w)"
  by (simp add: getTwilioClient_def)

lemma sendConversationMessage_ready:
  "twilioClient w \<Longrightarrow>
   sendConversationMessage e w conv body ident
     = (message_create e conv (greeting_author e ident) body,
        w\<lparr> message_log := message_log w @ [(conv, greeting_author e ident, body)] \<rparr>)"
  by (simp add: sendConversationMessage_def getTwilioClient_ready greeting_author_def Let_def)

lemma greetOrRearm_effect:
  assumes "twilioClient w"
  shows "flex_tasks_by_conversation (greetOrRearm e now w sid conv wsid N cname addr from ex)
           = flex_tasks_by_conversation w
       \<and> workerNameCache (greetOrRearm e now w sid conv wsid N cname addr from ex)
           = workerNameCache w
       \<and> twilioClient (greetOrRearm e now w sid conv wsid N cname addr from ex)
       \<and> workspaceSid (greetOrRearm e now w sid conv wsid N cname addr from ex) = workspaceSid w
       \<and> tasks (greetOrRearm e now w sid conv wsid N cname addr from ex) = tasks w
       \<and> flex_tasks (greetOrRearm e now w sid conv wsid N cname addr from ex)
           = (if (case ex of None \<Rightarrow> None | Some st \<Rightarrow> flex_greeting_sent_at st) = None \<and>
                 \<not> greeting_blocked e conv wsid N cname addr from
              then flex_setGreetingSent (flex_tasks w) sid now now
              else flex_tasks w)"
proof -
  have s: "\<And>w' b i. twilioClient w' \<Longrightarrow>
      sendConversationMessage e w' conv b i
        = (message_create e conv (greeting_author e i) b,
           w'\<lparr> message_log := message_log w' @ [(conv, greeting_author e i, b)] \<rparr>)"
    by (rule sendConversationMessage_ready)
  show ?thesis
    using assms
    by (simp add: greetOrRearm_def Let_def s scheduleFlexInactivityTimers_def
        greeting_blocked_def split: option.splits)
qed

lemma cache_ext_eq: "workerNameCache w' = workerNameCache w \<Longrightarrow> cache_ext w w'"
  by (simp add: cache_ext_def)

lemma cache_ok_eq: "workerNameCache w' = workerNameCache w \<Longrightarrow> cache_ok w \<Longrightarrow> cache_ok w'"
  by (simp add: cache_ok_def)

lemma upsert_row_same:
  assumes "base_matches row inp" and "flex_created_at row = Some c"
  shows "row\<lparr> conversation_sid := in_conversationSid inp,
              channel_type := in_channelType inp,
              flex_customer_name := in_customerName inp,
              customer_address := in_customerAddress inp,
              customer_from := in_customerFrom inp,
              worker_sid := in_workerSid inp,
              worker_name := in_workerName inp,
              task_assignment_status := in_assignmentStatus inp,
              task_attributes := in_taskAttributes inp,
              flex_created_at := Some c,
              flex_updated_at := now \<rparr> = row\<lparr> flex_updated_at := now \<rparr>"
  using assms by (cases row) (simp add: base_matches_def)

lemma upsertBaseState_settled:
  assumes "map_of tbl (in_taskSid inp) = Some row" and "base_matches row inp"
    and "flex_created_at row \<noteq> None"
  shows "upsertBaseState tbl lookup inp now
           = (AList.update (in_taskSid inp) (row\<lparr> flex_updated_at := now \<rparr>) tbl,
              lookup_step (or_empty (in_conversationSid inp)) (in_taskSid inp) lookup)"
proof -
  obtain c where c: "flex_created_at row = Some c" using assms(3) by auto
  show ?thesis
    using assms(1) c upsert_row_same [OF assms(2) c, of now]
    by (simp add: upsertBaseState_def findByTaskSid_def row_or_new_def Let_def lookup_step_def
        truthy_def)
qed

lemma processListedTask_settled:
  assumes "settled e w t attrs conv r" and "twilioClient w"
  shows "\<exists>row. map_of (flex_tasks w) (pt_sid t) = Some row
       \<and> flex_tasks (processListedTask e ws now w t attrs conv r)
           = AList.update (pt_sid t) (row\<lparr> flex_updated_at := now \<rparr>) (flex_tasks w)
       \<and> flex_tasks_by_conversation (processListedTask e ws now w t attrs conv r)
           = lookup_step conv (pt_sid t) (flex_tasks_by_conversation w)
       \<and> workerNameCache (processListedTask e ws now w t attrs conv r) = workerNameCache w
       \<and> twilioClient (processListedTask e ws now w t attrs conv r)
       \<and> workspaceSid (processListedTask e ws now w t attrs conv r) = workspaceSid w
       \<and> tasks (processListedTask e ws now w t attrs conv r) = tasks w"
proof -
  obtain row N where row: "map_of (flex_tasks w) (pt_sid t) = Some row"
    and ns: "name_stable w (workerSidOf r) (fallbackWorkerNameOf r) N"
    and bm: "base_matches row (baseStateInput t attrs conv r N)"
    and cr: "flex_created_at row \<noteq> None"
    and gr: "flex_greeting_sent_at row \<noteq> None \<or>
         greeting_blocked e conv (workerSidOf r) N (pickCustomerName attrs)
           (string_of (field attrs ''customerAddress'')) (string_of (field attrs ''from''))"
    using assms(1) unfolding settled_def by blast
  have wn: "worker_name row = Some N"
    using bm by (simp add: base_matches_def baseStateInput_def)
  have ch: "chooseWorkerName e w ws (workerSidOf r) (fallbackWorkerNameOf r) (Some row) = (N, w)"
    by (rule chooseWorkerName_stable [OF ns wn])
  have sid: "in_taskSid (baseStateInput t attrs conv r N) = pt_sid t"
    "or_empty (in_conversationSid (baseStateInput t attrs conv r N)) = conv"
    by (simp_all add: baseStateInput_def or_empty_def)
  have up: "upsertBaseState (flex_tasks w) (flex_tasks_by_conversation w)
              (baseStateInput t attrs conv r N) now
           = (AList.update (pt_sid t) (row\<lparr> flex_updated_at := now \<rparr>) (flex_tasks w),
              lookup_step conv (pt_sid t) (flex_tasks_by_conversation w))"
    using upsertBaseState_settled [of "flex_tasks w" "baseStateInput t attrs conv r N" row
        "flex_tasks_by_conversation w" now] row bm cr
    by (simp add: sid)
  let ?w2 = "w\<lparr> flex_tasks := AList.update (pt_sid t) (row\<lparr> flex_updated_at := now \<rparr>)
                                  (flex_tasks w),
               flex_tasks_by_conversation := lookup_step conv (pt_sid t)
                                               (flex_tasks_by_conversation w) \<rparr>"
  have p: "processListedTask e ws now w t attrs conv r
      = greetOrRearm e now ?w2 (pt_sid t) conv (workerSidOf r) N (pickCustomerName attrs)
          (string_of (field attrs ''customerAddress'')) (string_of (field attrs ''from''))
          (Some row)"
    by (simp add: processListedTask_def Let_def findByTaskSid_def row ch up)
  have c2: "twilioClient ?w2" using assms(2) by simp
  show ?thesis
    using row gr greetOrRearm_effect [OF c2, of e now "pt_sid t" conv "workerSidOf r" N
        "pickCustomerName attrs" "string_of (field attrs ''customerAddress'')"
        "string_of (field attrs ''from'')" "Some row"]
    by (simp only: p) auto
qed

lemma name_stable_eq:
  "workerNameCache w' = workerNameCache w \<Longrightarrow> name_stable w wsid fb N \<Longrightarrow>
   name_stable w' wsid fb N"
  by (simp add: name_stable_def)

lemma upsertBaseState_row:
  "\<exists>rowU. upsertBaseState tbl lookup inp now
            = (AList.update (in_taskSid inp) rowU tbl,
               lookup_step (or_empty (in_conversationSid inp)) (in_taskSid inp) lookup)
         \<and> base_matches rowU inp \<and> flex_created_at rowU \<noteq> None
         \<and> flex_greeting_sent_at rowU
             = (case map_of tbl (in_taskSid inp) of None \<Rightarrow> None
                | Some st \<Rightarrow> flex_greeting_sent_at st)"
proof -
  let ?rowU = "the (map_of (fst (upsertBaseState tbl lookup inp now)) (in_taskSid inp))"
  have 1: "upsertBaseState tbl lookup inp now
            = (AList.update (in_taskSid inp) ?rowU tbl,
               lookup_step (or_empty (in_conversationSid inp)) (in_taskSid inp) lookup)"
    by (simp add: upsertBaseState_def Let_def lookup_step_def truthy_def update_conv')
  have 2: "base_matches ?rowU inp \<and> flex_created_at ?rowU \<noteq> None
         \<and> flex_greeting_sent_at ?rowU
             = (case map_of tbl (in_taskSid inp) of None \<Rightarrow> None
                | Some st \<Rightarrow> flex_greeting_sent_at st)"
    by (simp add: upsertBaseState_def findByTaskSid_def row_or_new_def Let_def update_conv'
        base_matches_def split: option.splits)
  show ?thesis using 1 2 by blast
qed

lemma processListedTask_establishes:
  assumes "cache_ok w" and "twilioClient w"
  shows "settled e (processListedTask e ws now w t attrs conv r) t attrs conv r
       \<and> cache_ok (processListedTask e ws now w t attrs conv r)
       \<and> cache_ext w (processListedTask e ws now w t attrs conv r)
       \<and> twilioClient (processListedTask e ws now w t attrs conv r)
       \<and> workspaceSid (processListedTask e ws now w t attrs conv r) = workspaceSid w
       \<and> tasks (processListedTask e ws now w t attrs conv r) = tasks w
       \<and> flex_tasks_by_conversation (processListedTask e ws now w t attrs conv r)
           = lookup_step conv (pt_sid t) (flex_tasks_by_conversation w)
       \<and> (\<forall>k. k \<noteq> pt_sid t \<longrightarrow>
             map_of (flex_tasks (processListedTask e ws now w t attrs conv r)) k
               = map_of (flex_tasks w) k)"
proof -
  let ?ex = "map_of (flex_tasks w) (pt_sid t)"
  let ?addr = "string_of (field attrs ''customerAddress'')"
  let ?from = "string_of (field attrs ''from'')"
  let ?cn = "pickCustomerName attrs"
  obtain N w1 where ch: "chooseWorkerName e w ws (workerSidOf r) (fallbackWorkerNameOf r) ?ex
      = (N, w1)"
    by (cases "chooseWorkerName e w ws (workerSidOf r) (fallbackWorkerNameOf r) ?ex")
  note cr = chooseWorkerName_result [OF assms(1) fallbackWorkerNameOf_trimmed ch]
  have w1: "w1 = w\<lparr> workerNameCache := workerNameCache w1 \<rparr>" using cr by simp
  have f1: "flex_tasks w1 = flex_tasks w"
    "flex_tasks_by_conversation w1 = flex_tasks_by_conversation w"
    "twilioClient w1" "workspaceSid w1 = workspaceSid w" "tasks w1 = tasks w"
    using assms(2) by (subst w1, simp)+
  let ?inp = "baseStateInput t attrs conv r N"
  have sid: "in_taskSid ?inp = pt_sid t" "or_empty (in_conversationSid ?inp) = conv"
    by (simp_all add: baseStateInput_def or_empty_def)
  obtain rowU where up: "upsertBaseState (flex_tasks w) (flex_tasks_by_conversation w) ?inp now
            = (AList.update (pt_sid t) rowU (flex_tasks w),
               lookup_step conv (pt_sid t) (flex_tasks_by_conversation w))"
    and bm: "base_matches rowU ?inp" and cU: "flex_created_at rowU \<noteq> None"
    and gU: "flex_greeting_sent_at rowU
             = (case ?ex of None \<Rightarrow> None | Some st \<Rightarrow> flex_greeting_sent_at st)"
    using upsertBaseState_row [of "flex_tasks w" "flex_tasks_by_conversation w" ?inp now]
    by (auto simp add: sid)
  let ?tbl = "AList.update (pt_sid t) rowU (flex_tasks w)"
  let ?w2 = "w1\<lparr> flex_tasks := ?tbl,
                flex_tasks_by_conversation := lookup_step conv (pt_sid t)
                                                (flex_tasks_by_conversation w) \<rparr>"
  let ?w' = "greetOrRearm e now ?w2 (pt_sid t) conv (workerSidOf r) N ?cn ?addr ?from ?ex"
  have p: "processListedTask e ws now w t attrs conv r = ?w'"
    by (simp add: processListedTask_def Let_def findByTaskSid_def ch f1 up)
  have c2: "twilioClient ?w2" using f1 by simp
  note ge = greetOrRearm_effect [OF c2, of e now "pt_sid t" conv "workerSidOf r" N ?cn ?addr
      ?from ?ex]
  have cache: "workerNameCache ?w' = workerNameCache w1" using ge by simp
  have ns: "name_stable ?w' (workerSidOf r) (fallbackWorkerNameOf r) N"
    using cr name_stable_eq [OF cache] by simp
  have ok: "cache_ok ?w'" using cr cache_ok_eq [OF cache] by simp
  have ext: "cache_ext w ?w'"
    using cr cache_ext_eq [OF cache] cache_ext_trans by blast
  let ?cond = "(case ?ex of None \<Rightarrow> None | Some st \<Rightarrow> flex_greeting_sent_at st) = None \<and>
                 \<not> greeting_blocked e conv (workerSidOf r) N ?cn ?addr ?from"
  have ft: "flex_tasks ?w' = (if ?cond then flex_setGreetingSent ?tbl (pt_sid t) now now
                              else ?tbl)"
    using ge by simp
  have other: "\<forall>k. k \<noteq> pt_sid t \<longrightarrow> map_of (flex_tasks ?w') k = map_of (flex_tasks w) k"
    by (simp add: ft flex_setGreetingSent_def update_conv')
  have row: "\<exists>row. map_of (flex_tasks ?w') (pt_sid t) = Some row
        \<and> base_matches row ?inp \<and> flex_created_at row \<noteq> None
        \<and> (flex_greeting_sent_at row \<noteq> None \<or>
            greeting_blocked e conv (workerSidOf r) N ?cn ?addr ?from)"
  proof (cases ?cond)
    case True
    then show ?thesis
      using bm cU
      by (simp add: ft flex_setGreetingSent_def row_or_new_def update_conv'
          base_matches_def)
  next
    case False
    then show ?thesis
      using bm cU gU by (auto simp add: ft update_conv')
  qed
  have st: "settled e ?w' t attrs conv r"
    unfolding settled_def using row ns by blast
  show ?thesis
    using st ok ext other ge f1 by (simp add: p)
qed

lemma processFlexTask_listed:
  "processFlexTask e ws now w t =
     (case listed e ws t of
        Inl err \<Rightarrow> (Some err, w)
      | Inr None \<Rightarrow> (None, w)
      | Inr (Some (attrs, conv, r)) \<Rightarrow> (None, processListedTask e ws now w t attrs conv r))"
  by (simp add: processFlexTask_def listed_def Let_def
      split: sum.splits option.splits list.splits)

lemma settled_frame:
  assumes "settled e w x attrs conv r"
    and "map_option erase_row (map_of (flex_tasks w') (pt_sid x))
           = map_option erase_row (map_of (flex_tasks w) (pt_sid x))"
    and "cache_ext w w'"
  shows "settled e w' x attrs conv r"
proof -
  obtain row N where row: "map_of (flex_tasks w) (pt_sid x) = Some row"
    and ns: "name_stable w (workerSidOf r) (fallbackWorkerNameOf r) N"
    and bm: "base_matches row (baseStateInput x attrs conv r N)"
    and cr: "flex_created_at row \<noteq> None"
    and gr: "flex_greeting_sent_at row \<noteq> None \<or>
         greeting_blocked e conv (workerSidOf r) N (pickCustomerName attrs)
           (string_of (field attrs ''customerAddress'')) (string_of (field attrs ''from''))"
    using assms(1) unfolding settled_def by blast
  obtain row' where row': "map_of (flex_tasks w') (pt_sid x) = Some row'"
    and er: "erase_row row' = erase_row row"
    using assms(2) row by (cases "map_of (flex_tasks w') (pt_sid x)") auto
  have same: "base_matches row' (baseStateInput x attrs conv r N)"
    "flex_created_at row' \<noteq> None"
    "flex_greeting_sent_at row' = flex_greeting_sent_at row"
    using er bm cr
    by (cases row; cases row'; simp add: erase_row_def base_matches_def)+
  have "name_stable w' (workerSidOf r) (fallbackWorkerNameOf r) N"
    by (rule name_stable_ext [OF ns assms(3)])
  then show ?thesis
    unfolding settled_def using row' same gr by auto
qed

lemma settled_task_frame:
  assumes "settled_task e ws w x"
    and "map_option erase_row (map_of (flex_tasks w') (pt_sid x))
           = map_option erase_row (map_of (flex_tasks w) (pt_sid x))"
    and "cache_ext w w'"
  shows "settled_task e ws w' x"
  using assms settled_frame
  by (auto simp add: settled_task_def split: sum.splits option.splits)

lemma erase_update:
  "map_of tbl k = Some row \<Longrightarrow>
   erase_updated (AList.update k (row\<lparr> flex_updated_at := n \<rparr>) tbl) = erase_updated tbl"
  by (induction tbl) (auto simp add: erase_updated_def erase_row_def)

lemma map_of_foldl_update:
  "map_of (foldl (\<lambda>l (c, s). AList.update c s l) l ps) = map_of l ++ map_of (rev ps)"
proof (induction ps arbitrary: l)
  case Nil
  show ?case by simp
next
  case (Cons p ps)
  obtain c s where p: "p = (c, s)" by (cases p)
  have "map_of (AList.update c s l) ++ map_of (rev ps)
          = map_of l ++ (map_of [(c, s)] ++ map_of (rev ps))"
    by (simp add: update_conv' map_add_upd_left fun_eq_iff map_add_def split: option.splits)
  then show ?case using Cons [of "AList.update c s l"] p by (simp add: map_of_append)
qed

lemma keys_foldl_update_present:
  "fst ` set ps \<subseteq> fst ` set l \<Longrightarrow>
   map fst (foldl (\<lambda>l (c, s). AList.update c s l) l ps) = map fst l"
proof (induction ps arbitrary: l)
  case Nil
  show ?case by simp
next
  case (Cons p ps)
  obtain c s where p: "p = (c, s)" by (cases p)
  have k: "map fst (AList.update c s l) = map fst l"
    using Cons.prems p by (auto simp add: update_keys)
  have "set (map fst (AList.update c s l)) = set (map fst l)"
    using k by simp
  then have "fst ` set ps \<subseteq> fst ` set (AList.update c s l)"
    using Cons.prems by auto
  then show ?case using Cons.IH [of "AList.update c s l"] k p by simp
qed

lemma distinct_foldl_update:
  "distinct (map fst l) \<Longrightarrow> distinct (map fst (foldl (\<lambda>l (c, s). AList.update c s l) l ps))"
  by (induction ps arbitrary: l) (auto simp add: distinct_update)

lemma alist_eqI:
  "map fst xs = map fst ys \<Longrightarrow> distinct (map fst xs) \<Longrightarrow> map_of xs = map_of ys \<Longrightarrow> xs = ys"
proof (induction xs arbitrary: ys)
  case Nil
  then show ?case by simp
next
  case (Cons x xs)
  obtain y ys' where ys: "ys = y # ys'" using Cons.prems(1) by (cases ys) auto
  obtain k v where x: "x = (k, v)" by (cases x)
  obtain v' where y: "y = (k, v')" using Cons.prems(1) ys x by (cases y) auto
  have keys: "map fst xs = map fst ys'" using Cons.prems(1) ys by simp
  have dist: "distinct (map fst xs)" using Cons.prems(2) by simp
  have kx: "k \<notin> set (map fst xs)" using Cons.prems(2) x by simp
  have ky: "k \<notin> set (map fst ys')" using kx keys by simp
  have m: "(map_of xs)(k \<mapsto> v) = (map_of ys')(k \<mapsto> v')"
    using Cons.prems(3) unfolding ys x y by (simp only: map_of.simps fst_conv snd_conv)
  have "v = v'"
    using fun_cong [OF m, of k] by simp
  moreover have "map_of xs = map_of ys'"
  proof
    fix a
    show "map_of xs a = map_of ys' a"
    proof (cases "a = k")
      case True
      have "map_of xs k = None" "map_of ys' k = None"
        using kx ky by (simp_all only: map_of_eq_None_iff set_map not_False_eq_True)
      then show ?thesis using True by simp
    next
      case False
      then show ?thesis
        using fun_cong [OF m, of a] by simp
    qed
  qed
  ultimately show ?case using Cons.IH [OF keys dist] x y ys by simp
qed

lemma foldl_update_twice:
  assumes "distinct (map fst l)"
  shows "foldl (\<lambda>l (c, s). AList.update c s l)
           (foldl (\<lambda>l (c, s). AList.update c s l) l ps) ps
         = foldl (\<lambda>l (c, s). AList.update c s l) l ps"
proof -
  let ?f = "foldl (\<lambda>l (c, s). AList.update c s l)"
  let ?l1 = "?f l ps"
  have d1: "distinct (map fst ?l1)" by (rule distinct_foldl_update [OF assms])
  have dom: "fst ` set ps \<subseteq> fst ` set ?l1"
  proof
    fix k
    assume "k \<in> fst ` set ps"
    then have "k \<in> fst ` set (rev ps)" by simp
    then have "map_of (rev ps) k \<noteq> None" by (simp add: map_of_eq_None_iff)
    then have "map_of ?l1 k \<noteq> None" by (auto simp add: map_of_foldl_update)
    then show "k \<in> fst ` set ?l1" by (simp add: map_of_eq_None_iff)
  qed
  have keys: "map fst (?f ?l1 ps) = map fst ?l1" by (rule keys_foldl_update_present [OF dom])
  have "map_of (?f ?l1 ps) = map_of ?l1"
    by (simp add: map_of_foldl_update fun_eq_iff map_add_def split: option.splits)
  then show ?thesis using alist_eqI [OF keys] d1 keys by simp
qed

lemma foldl_lookup_of:
  "foldl (lookup_of e ws) l ts
     = foldl (\<lambda>l (c, s). AList.update c s l) l (lookup_writes e ws ts)"
proof (induction ts arbitrary: l)
  case Nil
  show ?case by (simp add: lookup_writes_def)
next
  case (Cons t ts)
  have "foldl (\<lambda>l (c, s). AList.update c s l) l (lookup_writes e ws (t # ts))
      = foldl (\<lambda>l (c, s). AList.update c s l) (lookup_of e ws l t) (lookup_writes e ws ts)"
    by (simp add: lookup_writes_def lookup_of_def lookup_step_def
        split: sum.splits option.splits)
  then show ?case using Cons [of "lookup_of e ws l t"] by simp
qed

lemma foldl_lookup_of_twice:
  "distinct (map fst l) \<Longrightarrow>
   foldl (lookup_of e ws) (foldl (lookup_of e ws) l ts) ts = foldl (lookup_of e ws) l ts"
  by (simp add: foldl_lookup_of foldl_update_twice)

lemma processFlexTask_first:
  assumes "cache_ok w" and "twilioClient w"
    and "processFlexTask e ws now w t = (None, w')"
  shows "settled_task e ws w' t \<and> cache_ok w' \<and> cache_ext w w' \<and> twilioClient w'
       \<and> workspaceSid w' = workspaceSid w \<and> tasks w' = tasks w
       \<and> flex_tasks_by_conversation w' = lookup_of e ws (flex_tasks_by_conversation w) t
       \<and> (\<forall>k. k \<noteq> pt_sid t \<longrightarrow> map_of (flex_tasks w') k = map_of (flex_tasks w) k)
       \<and> (\<forall>err. listed e ws t \<noteq> Inl err)"
proof (cases "listed e ws t")
  case (Inl err)
  then show ?thesis using assms(3) by (simp add: processFlexTask_listed)
next
  case (Inr v)
  show ?thesis
  proof (cases v)
    case None
    then have "w' = w" using assms(3) Inr by (simp add: processFlexTask_listed)
    then show ?thesis
      using assms(1,2) Inr None
      by (simp add: settled_task_def lookup_of_def cache_ext_refl)
  next
    case (Some p)
    obtain attrs conv r where p: "p = (attrs, conv, r)" by (cases p)
    have w': "w' = processListedTask e ws now w t attrs conv r"
      using assms(3) Inr Some p by (simp add: processFlexTask_listed)
    show ?thesis
      using processListedTask_establishes [OF assms(1,2), of e ws now t attrs conv r]
        Inr Some p
      unfolding w' by (simp add: settled_task_def lookup_of_def)
  qed
qed

lemma processFlexTask_again:
  assumes "settled_task e ws w t" and "twilioClient w"
    and "\<forall>err. listed e ws t \<noteq> Inl err"
  shows "\<exists>w'. processFlexTask e ws now w t = (None, w')
       \<and> erase_updated (flex_tasks w') = erase_updated (flex_tasks w)
       \<and> (\<forall>k. map_option erase_row (map_of (flex_tasks w') k)
                = map_option erase_row (map_of (flex_tasks w) k))
       \<and> workerNameCache w' = workerNameCache w \<and> twilioClient w'
       \<and> workspaceSid w' = workspaceSid w \<and> tasks w' = tasks w
       \<and> flex_tasks_by_conversation w' = lookup_of e ws (flex_tasks_by_conversation w) t"
proof (cases "listed e ws t")
  case (Inl err)
  then show ?thesis using assms(3) by simp
next
  case (Inr v)
  show ?thesis
  proof (cases v)
    case None
    then show ?thesis
      using assms(2) Inr by (simp add: processFlexTask_listed lookup_of_def)
  next
    case (Some p)
    obtain attrs conv r where p: "p = (attrs, conv, r)" by (cases p)
    let ?w' = "processListedTask e ws now w t attrs conv r"
    have st: "settled e w t attrs conv r"
      using assms(1) Inr Some p by (simp add: settled_task_def)
    from processListedTask_settled [OF st assms(2), of ws now]
    obtain row where row: "map_of (flex_tasks w) (pt_sid t) = Some row"
      and ft: "flex_tasks ?w'
           = AList.update (pt_sid t) (row\<lparr> flex_updated_at := now \<rparr>) (flex_tasks w)"
      and rest: "flex_tasks_by_conversation ?w'
           = lookup_step conv (pt_sid t) (flex_tasks_by_conversation w)"
        "workerNameCache ?w' = workerNameCache w" "twilioClient ?w'"
        "workspaceSid ?w' = workspaceSid w" "tasks ?w' = tasks w"
      by blast
    have e1: "erase_updated (flex_tasks ?w') = erase_updated (flex_tasks w)"
      unfolding ft by (rule erase_update [OF row])
    have e2: "\<forall>k. map_option erase_row (map_of (flex_tasks ?w') k)
                = map_option erase_row (map_of (flex_tasks w) k)"
      unfolding ft using row by (auto simp add: update_conv' erase_row_def)
    have "processFlexTask e ws now w t = (None, ?w')"
      using Inr Some p by (simp add: processFlexTask_listed)
    then show ?thesis
      using e1 e2 rest Inr Some p by (simp add: lookup_of_def)
  qed
qed

lemma processFlexTasks_first:
  assumes "processFlexTasks e ws now w ts = (None, w')"
    and "cache_ok w" and "twilioClient w"
    and "distinct (map pt_sid ts)"
    and "\<forall>x \<in> set prev. settled_task e ws w x \<and> pt_sid x \<notin> pt_sid ` set ts"
  shows "(\<forall>x \<in> set prev \<union> set ts. settled_task e ws w' x) \<and> twilioClient w'
       \<and> workspaceSid w' = workspaceSid w \<and> tasks w' = tasks w
       \<and> flex_tasks_by_conversation w' = foldl (lookup_of e ws) (flex_tasks_by_conversation w) ts
       \<and> (\<forall>x \<in> set ts. \<forall>err. listed e ws x \<noteq> Inl err)"
  using assms
proof (induction ts arbitrary: w prev)
  case Nil
  then show ?case by simp
next
  case (Cons t ts)
  obtain r w1 where st: "processFlexTask e ws now w t = (r, w1)"
    by (cases "processFlexTask e ws now w t")
  have r: "r = None" using Cons.prems(1) st by (cases r) simp_all
  have rest: "processFlexTasks e ws now w1 ts = (None, w')"
    using Cons.prems(1) st r by simp
  note f = processFlexTask_first [OF Cons.prems(2,3) st [unfolded r]]
  have prev': "\<forall>x \<in> set (t # prev). settled_task e ws w1 x \<and> pt_sid x \<notin> pt_sid ` set ts"
  proof
    fix x
    assume x: "x \<in> set (t # prev)"
    show "settled_task e ws w1 x \<and> pt_sid x \<notin> pt_sid ` set ts"
    proof (cases "x = t")
      case True
      then show ?thesis using f Cons.prems(4) by simp
    next
      case False
      then have xp: "x \<in> set prev" using x by simp
      then have sx: "settled_task e ws w x" and nx: "pt_sid x \<notin> pt_sid ` set (t # ts)"
        using Cons.prems(5) by blast+
      have "pt_sid x \<noteq> pt_sid t" using nx by simp
      then have "map_of (flex_tasks w1) (pt_sid x) = map_of (flex_tasks w) (pt_sid x)"
        using f by blast
      then have "settled_task e ws w1 x"
        using settled_task_frame [OF sx] f by simp
      then show ?thesis using nx by simp
    qed
  qed
  have d: "distinct (map pt_sid ts)" using Cons.prems(4) by simp
  have c1: "cache_ok w1" and t1: "twilioClient w1" using f by blast+
  note ih = Cons.IH [OF rest c1 t1 d prev']
  show ?case
  proof (intro conjI)
    show "\<forall>x \<in> set prev \<union> set (t # ts). settled_task e ws w' x"
      using ih by auto
    show "twilioClient w'" using ih by blast
    show "workspaceSid w' = workspaceSid w" using ih f by simp
    show "tasks w' = tasks w" using ih f by simp
    show "flex_tasks_by_conversation w'
        = foldl (lookup_of e ws) (flex_tasks_by_conversation w) (t # ts)"
      using ih f by simp
    show "\<forall>x \<in> set (t # ts). \<forall>err. listed e ws x \<noteq> Inl err"
      using ih f by simp
  qed
qed

lemma processFlexTasks_again:
  assumes "\<forall>x \<in> set ts. settled_task e ws w x \<and> (\<forall>err. listed e ws x \<noteq> Inl err)"
    and "twilioClient w"
  shows "\<exists>w'. processFlexTasks e ws now w ts = (None, w')
       \<and> erase_updated (flex_tasks w') = erase_updated (flex_tasks w)
       \<and> twilioClient w' \<and> workspaceSid w' = workspaceSid w \<and> tasks w' = tasks w
       \<and> flex_tasks_by_conversation w' = foldl (lookup_of e ws) (flex_tasks_by_conversation w) ts"
  using assms
proof (induction ts arbitrary: w)
  case Nil
  then show ?case by simp
next
  case (Cons t ts)
  have st: "settled_task e ws w t" and nf: "\<forall>err. listed e ws t \<noteq> Inl err"
    using Cons.prems(1) by simp_all
  from processFlexTask_again [OF st Cons.prems(2) nf, of now]
  obtain w1 where s1: "processFlexTask e ws now w t = (None, w1)"
    and e1: "erase_updated (flex_tasks w1) = erase_updated (flex_tasks w)"
    and m1: "\<forall>k. map_option erase_row (map_of (flex_tasks w1) k)
                = map_option erase_row (map_of (flex_tasks w) k)"
    and c1: "workerNameCache w1 = workerNameCache w" and t1: "twilioClient w1"
    and r1: "workspaceSid w1 = workspaceSid w" "tasks w1 = tasks w"
      "flex_tasks_by_conversation w1 = lookup_of e ws (flex_tasks_by_conversation w) t"
    by blast
  have all1: "\<forall>x \<in> set ts. settled_task e ws w1 x \<and> (\<forall>err. listed e ws x \<noteq> Inl err)"
  proof
    fix x
    assume x: "x \<in> set ts"
    then have "settled_task e ws w x" using Cons.prems(1) by simp
    then have "settled_task e ws w1 x"
      using settled_task_frame m1 cache_ext_eq [OF c1] by blast
    then show "settled_task e ws w1 x \<and> (\<forall>err. listed e ws x \<noteq> Inl err)"
      using Cons.prems(1) x by simp
  qed
  from Cons.IH [OF all1 t1]
  obtain w' where s2: "processFlexTasks e ws now w1 ts = (None, w')"
    and r2: "erase_updated (flex_tasks w') = erase_updated (flex_tasks w1)"
      "twilioClient w'" "workspaceSid w' = workspaceSid w1" "tasks w' = tasks w1"
      "flex_tasks_by_conversation w'
         = foldl (lookup_of e ws) (flex_tasks_by_conversation w1) ts"
    by blast
  have "processFlexTasks e ws now w (t # ts) = (None, w')" using s1 s2 by simp
  then show ?case using e1 r1 r2 by simp
qed

lemma getTwilioClient_true:
  assumes "getTwilioClient e w = (True, wa)"
  shows "twilioClient wa \<and> workerNameCache wa = workerNameCache w
       \<and> flex_tasks_by_conversation wa = flex_tasks_by_conversation w"
  using assms by (auto simp add: getTwilioClient_def split: if_splits)

lemma truthy_None: "\<not> truthy None"
  by (simp add: truthy_def or_empty_def)

lemma resolveWorkspaceSid_truthy:
  assumes "resolveWorkspaceSid e wa = (Inr s, wb)" and "truthy s"
  shows "workspaceSid wb = s \<and> twilioClient wb = twilioClient wa
       \<and> workerNameCache wb = workerNameCache wa
       \<and> flex_tasks_by_conversation wb = flex_tasks_by_conversation wa"
  using assms
  by (auto simp add: resolveWorkspaceSid_def adopt_workspace_def truthy_None
      split: if_splits sum.splits list.splits)

lemma resolveWorkspaceSid_known:
  "truthy (workspaceSid w) \<Longrightarrow> resolveWorkspaceSid e w = (Inr (workspaceSid w), w)"
  by (simp add: resolveWorkspaceSid_def)

lemma autoProcessFlex_true:
  assumes "autoProcessFlexAssignedTasks e w now = (Inr True, w1)"
  shows "\<exists>wa wb s ts. getTwilioClient e w = (True, wa)
       \<and> resolveWorkspaceSid e wa = (Inr s, wb) \<and> truthy s
       \<and> tasks_list e (or_empty s) (number_or (TASKS_FLEX_POLL_LIMIT e) 50) = Inr ts
       \<and> processFlexTasks e (or_empty s) now wb ts = (None, w1)"
proof -
  obtain c wa where g: "getTwilioClient e w = (c, wa)" by (cases "getTwilioClient e w")
  have c: "c" using assms g by (cases c) (simp_all add: autoProcessFlexAssignedTasks_def)
  obtain rs wb where r: "resolveWorkspaceSid e wa = (rs, wb)"
    by (cases "resolveWorkspaceSid e wa")
  obtain s where s: "rs = Inr s"
    using assms g c r by (cases rs) (auto simp add: autoProcessFlexAssignedTasks_def)
  have t: "truthy s"
    using assms g c r s by (auto simp add: autoProcessFlexAssignedTasks_def split: if_splits)
  obtain ts where l: "tasks_list e (or_empty s) (number_or (TASKS_FLEX_POLL_LIMIT e) 50) = Inr ts"
    using assms g c r s t
    by (cases "tasks_list e (or_empty s) (number_or (TASKS_FLEX_POLL_LIMIT e) 50)")
       (auto simp add: autoProcessFlexAssignedTasks_def Let_def)
  obtain x w3 where p: "processFlexTasks e (or_empty s) now wb ts = (x, w3)"
    by (cases "processFlexTasks e (or_empty s) now wb ts")
  have "x = None \<and> w3 = w1"
    using assms g c r s t l p
    by (cases x) (auto simp add: autoProcessFlexAssignedTasks_def Let_def)
  then show ?thesis using g c r s t l p by auto
qed

lemma flex_second_poll:
  assumes "cache_ok w"
    and "distinct (map fst (flex_tasks_by_conversation w))"
    and "listing_distinct e"
    and "autoProcessFlexAssignedTasks e w now1 = (Inr True, w1)"
  shows "\<exists>w2. autoProcessFlexAssignedTasks e w1 now2 = (Inr True, w2)
       \<and> persistence_modulo_updated_at w2 = persistence_modulo_updated_at w1"
proof -
  from autoProcessFlex_true [OF assms(4)]
  obtain wa wb s ts where g: "getTwilioClient e w = (True, wa)"
    and r: "resolveWorkspaceSid e wa = (Inr s, wb)" and t: "truthy s"
    and l: "tasks_list e (or_empty s) (number_or (TASKS_FLEX_POLL_LIMIT e) 50) = Inr ts"
    and p: "processFlexTasks e (or_empty s) now1 wb ts = (None, w1)"
    by blast
  note ga = getTwilioClient_true [OF g]
  note rb = resolveWorkspaceSid_truthy [OF r t]
  have cb: "cache_ok wb" using assms(1) ga rb cache_ok_eq [of wb w] by simp
  have tb: "twilioClient wb" using ga rb by simp
  have d: "distinct (map pt_sid ts)" using assms(3) l unfolding listing_distinct_def by blast
  have lb: "flex_tasks_by_conversation wb = flex_tasks_by_conversation w"
    using ga rb by simp
  have "\<forall>x \<in> set ([] :: provider_task list).
          settled_task e (or_empty s) wb x \<and> pt_sid x \<notin> pt_sid ` set ts"
    by simp
  note f = processFlexTasks_first [OF p cb tb d this]
  have st: "\<forall>x \<in> set ts. settled_task e (or_empty s) w1 x
              \<and> (\<forall>err. listed e (or_empty s) x \<noteq> Inl err)"
    using f by simp
  have t1: "twilioClient w1" and s1: "workspaceSid w1 = s"
    and l1: "flex_tasks_by_conversation w1
         = foldl (lookup_of e (or_empty s)) (flex_tasks_by_conversation w) ts"
    using f rb lb by simp_all
  from processFlexTasks_again [OF st t1, of now2]
  obtain w2 where p2: "processFlexTasks e (or_empty s) now2 w1 ts = (None, w2)"
    and e2: "erase_updated (flex_tasks w2) = erase_updated (flex_tasks w1)"
    and k2: "tasks w2 = tasks w1"
    and l2: "flex_tasks_by_conversation w2
         = foldl (lookup_of e (or_empty s)) (flex_tasks_by_conversation w1) ts"
    by blast
  have "flex_tasks_by_conversation w2 = flex_tasks_by_conversation w1"
    unfolding l2 unfolding l1 by (rule foldl_lookup_of_twice [OF assms(2)])
  moreover have "autoProcessFlexAssignedTasks e w1 now2 = (Inr True, w2)"
    using t1 s1 t l p2
    by (simp add: autoProcessFlexAssignedTasks_def getTwilioClient_def
        resolveWorkspaceSid_known Let_def)
  ultimately show ?thesis
    using e2 k2 by (simp add: persistence_modulo_updated_at_def)
qed

text \<open>
  C2 (as amended). Two consecutive ticks with the same environment and the same provider
  outcomes. When both run the internal pipeline on a well-formed task table, the second
  one starting from the persistence state the first one left, both complete and the
  second performs no write: the persistence state after it is the one after the first.
  When the first runs the flex pipeline and completes, on a state whose cached worker
  names are trimmed and whose lookup table has one row per conversation, with a provider
  that lists every task once, the second completes too, and the persistence state after
  it is the one after the first in everything but the column \<open>updated_at\<close> of the
  flex table, which \<open>upsertBaseState\<close> rewrites on every poll.
\<close>

theorem second_tick_idempotent:
  "(table_ok (tasks w) \<and> runs_internal e w now1
      \<and> persistence w1 = persistence (tick e w now1) \<and> runs_internal e w1 now2
    \<longrightarrow> fst (autoProcessAssignedTasks e w now1) = None
      \<and> fst (autoProcessAssignedTasks e w1 now2) = None
      \<and> persistence (tick e w1 now2) = persistence w1)
   \<and> (sourceMode e \<noteq> ''internal''
      \<and> fst (autoProcessFlexAssignedTasks e w now1) = Inr True
      \<and> cache_ok w \<and> distinct (map fst (flex_tasks_by_conversation w))
      \<and> listing_distinct e
    \<longrightarrow> fst (autoProcessAssignedTasks e w now1) = None
      \<and> fst (autoProcessAssignedTasks e (tick e w now1) now2) = None
      \<and> persistence_modulo_updated_at (tick e (tick e w now1) now2)
          = persistence_modulo_updated_at (tick e w now1))"
proof (rule conjI; rule impI)
  assume h: "table_ok (tasks w) \<and> runs_internal e w now1
      \<and> persistence w1 = persistence (tick e w now1) \<and> runs_internal e w1 now2"
  obtain w0 where w0: "persistence w0 = persistence w"
    and t1: "autoProcessAssignedTasks e w now1
               = (None, autoProcessInternalAssignedTasks e w0 now1)"
    using tick_runs_internal [of e w now1] h by blast
  obtain w0' where w0': "persistence w0' = persistence w1"
    and t2: "autoProcessAssignedTasks e w1 now2
               = (None, autoProcessInternalAssignedTasks e w0' now2)"
    using tick_runs_internal [of e w1 now2] h by blast
  have ok0: "table_ok (tasks w0)" using h w0 by (simp add: persistence_def)
  have "tasks w0' = tasks (autoProcessInternalAssignedTasks e w0 now1)"
    using w0' h t1 by (simp add: persistence_def tick_def)
  then have "tasks (autoProcessInternalAssignedTasks e w0' now2) = tasks w0'"
    by (rule internal_second_run [OF ok0])
  then have "persistence (autoProcessInternalAssignedTasks e w0' now2) = persistence w0'"
    by (simp add: internal_persistence) (simp add: persistence_def)
  then have p: "persistence (tick e w1 now2) = persistence w1"
    using t2 w0' by (simp add: tick_def)
  show "fst (autoProcessAssignedTasks e w now1) = None
      \<and> fst (autoProcessAssignedTasks e w1 now2) = None
      \<and> persistence (tick e w1 now2) = persistence w1"
    using t1 t2 p by simp
next
  assume h: "sourceMode e \<noteq> ''internal''
      \<and> fst (autoProcessFlexAssignedTasks e w now1) = Inr True
      \<and> cache_ok w \<and> distinct (map fst (flex_tasks_by_conversation w))
      \<and> listing_distinct e"
  obtain wa where f1: "autoProcessFlexAssignedTasks e w now1 = (Inr True, wa)"
    using h by (cases "autoProcessFlexAssignedTasks e w now1") auto
  have c: "cache_ok w" and d: "distinct (map fst (flex_tasks_by_conversation w))"
    and l: "listing_distinct e" and m: "sourceMode e \<noteq> ''internal''"
    using h by blast+
  from flex_second_poll [OF c d l f1, of now2]
  obtain wb where f2: "autoProcessFlexAssignedTasks e wa now2 = (Inr True, wb)"
    and p: "persistence_modulo_updated_at wb = persistence_modulo_updated_at wa"
    by blast
  have a1: "autoProcessAssignedTasks e w now1 = (None, wa)"
    using m f1 by (simp add: autoProcessAssignedTasks_def)
  have a2: "autoProcessAssignedTasks e wa now2 = (None, wb)"
    using m f2 by (simp add: autoProcessAssignedTasks_def)
  show "fst (autoProcessAssignedTasks e w now1) = None
      \<and> fst (autoProcessAssignedTasks e (tick e w now1) now2) = None
      \<and> persistence_modulo_updated_at (tick e (tick e w now1) now2)
          = persistence_modulo_updated_at (tick e w now1)"
    using a1 a2 p by (simp add: tick_def)
qed

theorem second_tick_idempotent_witness:
  "table_ok (tasks (world_example [(''t1'', ungreeted_example)]))
   \<and> runs_internal env_internal (world_example [(''t1'', ungreeted_example)]) 1000
   \<and> runs_internal env_internal
        (tick env_internal (world_example [(''t1'', ungreeted_example)]) 1000) 2000
   \<and> map_option greeting_sent_at
        (findById (tasks (tick env_internal (world_example [(''t1'', ungreeted_example)]) 1000))
           ''t1'') = Some (Some 1000)
   \<and> persistence (tick env_internal
        (tick env_internal (world_example [(''t1'', ungreeted_example)]) 1000) 2000)
       = persistence (tick env_internal (world_example [(''t1'', ungreeted_example)]) 1000)
   \<and> sourceMode env_flex \<noteq> ''internal''
   \<and> fst (autoProcessFlexAssignedTasks env_flex (world_example []) 1000) = Inr True
   \<and> cache_ok (world_example [])
   \<and> distinct (map fst (flex_tasks_by_conversation (world_example [])))
   \<and> listing_distinct env_flex
   \<and> map_option flex_greeting_sent_at
        (findByTaskSid (flex_tasks (tick env_flex (world_example []) 1000)) ''WT1'')
       = Some (Some 1000)
   \<and> persistence_modulo_updated_at (tick env_flex (tick env_flex (world_example []) 1000) 2000)
       = persistence_modulo_updated_at (tick env_flex (world_example []) 1000)"
proof -
  let ?w = "world_example [(''t1'', ungreeted_example)]"
  have m: "sourceMode env_internal = ''internal''"
    by code_simp
  have ok: "table_ok (tasks ?w)"
    by (simp add: table_ok_def world_example_def ungreeted_example_def task_example_def)
  have r1: "runs_internal env_internal ?w 1000"
    and r2: "runs_internal env_internal (tick env_internal ?w 1000) 2000"
    using m by (simp_all add: runs_internal_def)
  have g: "map_option greeting_sent_at
        (findById (tasks (tick env_internal ?w 1000)) ''t1'') = Some (Some 1000)"
    by code_simp
  have h1: "table_ok (tasks ?w) \<and> runs_internal env_internal ?w 1000
      \<and> persistence (tick env_internal ?w 1000) = persistence (tick env_internal ?w 1000)
      \<and> runs_internal env_internal (tick env_internal ?w 1000) 2000"
    using ok r1 r2 by blast
  have mf: "sourceMode env_flex \<noteq> ''internal''"
    by code_simp
  have ff: "fst (autoProcessFlexAssignedTasks env_flex (world_example []) 1000) = Inr True"
    by code_simp
  have c: "cache_ok (world_example [])"
    by (simp add: cache_ok_def world_example_def)
  have d: "distinct (map fst (flex_tasks_by_conversation (world_example [])))"
    by (simp add: world_example_def)
  have l: "listing_distinct env_flex"
    by (auto simp add: listing_distinct_def env_flex_def)
  have gf: "map_option flex_greeting_sent_at
        (findByTaskSid (flex_tasks (tick env_flex (world_example []) 1000)) ''WT1'')
       = Some (Some 1000)"
    by code_simp
  have h2: "sourceMode env_flex \<noteq> ''internal''
      \<and> fst (autoProcessFlexAssignedTasks env_flex (world_example []) 1000) = Inr True
      \<and> cache_ok (world_example [])
      \<and> distinct (map fst (flex_tasks_by_conversation (world_example [])))
      \<and> listing_distinct env_flex"
    using mf ff c d l by blast
  note a = second_tick_idempotent [where w = ?w and e = env_internal and ?now1.0 = 1000
      and ?w1.0 = "tick env_internal ?w 1000" and ?now2.0 = 2000,
      THEN conjunct1, rule_format, OF h1, THEN conjunct2, THEN conjunct2]
  note b = second_tick_idempotent [where w = "world_example []" and e = env_flex
      and ?now1.0 = 1000 and ?now2.0 = 2000,
      THEN conjunct2, rule_format, OF h2, THEN conjunct2, THEN conjunct2]
  show ?thesis
    using ok r1 r2 g a mf ff c d l gf b by (intro conjI)
qed

text \<open>
  C2 as stated fails on the flex pipeline: two ticks in mode "flex" on the same provider
  data both complete, and the second rewrites the row of the listed task with its own
  clock reading in \<open>updated_at\<close>.
\<close>

theorem second_tick_writes_counterexample:
  "fst (autoProcessAssignedTasks env_flex (world_example []) 1000) = None
   \<and> fst (autoProcessAssignedTasks env_flex (tick env_flex (world_example []) 1000) 2000)
       = None
   \<and> map_option flex_updated_at
        (findByTaskSid (flex_tasks (tick env_flex (world_example []) 1000)) ''WT1'')
       = Some 1000
   \<and> map_option flex_updated_at
        (findByTaskSid (flex_tasks (tick env_flex (tick env_flex (world_example []) 1000) 2000))
           ''WT1'') = Some 2000
   \<and> persistence (tick env_flex (tick env_flex (world_example []) 1000) 2000)
       \<noteq> persistence (tick env_flex (world_example []) 1000)"
  by code_simp

end
